theory Spec2Isabelle
  imports Main "HOL-Library.Sublist" "HOL-Library.AList" "HOL-Library.Char_ord"
    "HOL-Library.List_Lexorder"
begin

section \<open>Go values\<close>

text \<open>
  A Go \<open>string\<close> is a sequence of bytes: \<^typ>\<open>string\<close>, one \<^typ>\<open>char\<close> per byte.
  A Go \<open>error\<close> is kept by the way it was built: \<open>errors.New\<close> or \<open>fmt.Errorf\<close>
  without \<open>%w\<close> give \<open>ErrorString\<close>, and \<open>fmt.Errorf("prefix: %w", err)\<close> gives
  \<open>Wrapped prefix err\<close>. \<open>Error\<close> is the method \<open>err.Error()\<close>. The value \<open>nil\<close> of
  type \<open>error\<close> is \<open>None\<close>.
\<close>

datatype error = ErrorString string | Wrapped string error

fun Error :: "error \<Rightarrow> string" where
  "Error (ErrorString s) = s"
| "Error (Wrapped p e) = p @ '': '' @ Error e"

section \<open>Package strings\<close>

text \<open>
  \<open>strings.ToLower\<close> has a fast path for a string of ASCII bytes only, where it adds
  \<open>'a' - 'A'\<close> to every byte in \<open>'A'..'Z'\<close>. For any other string it returns
  \<open>strings.Map(unicode.ToLower, s)\<close>; the Unicode case tables are not part of the
  repository, so that function is the parameter \<open>U\<close> of the model.
\<close>

definition isASCII :: "string \<Rightarrow> bool" where
  "isASCII s = list_all (\<lambda>c. (of_char c :: nat) < 0x80) s"

definition lowerByte :: "char \<Rightarrow> char" where
  "lowerByte c =
     (let n = (of_char c :: nat) in if 65 \<le> n \<and> n \<le> 90 then char_of (n + 32) else c)"

definition ToLower :: "(string \<Rightarrow> string) \<Rightarrow> string \<Rightarrow> string" where
  "ToLower U s = (if isASCII s then map lowerByte s else U s)"

text \<open>
  \<open>strings.TrimSpace\<close> removes the leading and the trailing runes for which
  \<open>unicode.IsSpace\<close> holds. \<open>spaceRunes\<close> lists their UTF-8 encodings: the six ASCII
  ones (\<open>\t \n \v \f \r\<close> and the blank), U+0085, U+00A0, U+1680, U+2000 to U+200A,
  U+2028, U+2029, U+202F, U+205F and U+3000. A string starts (ends) with a space rune
  exactly when it starts (ends) with one of these encodings.
\<close>

definition spaceRunes :: "string list" where
  "spaceRunes =
     [[CHR 0x09], [CHR 0x0A], [CHR 0x0B], [CHR 0x0C], [CHR 0x0D], [CHR 0x20],
      [CHR 0xC2, CHR 0x85], [CHR 0xC2, CHR 0xA0],
      [CHR 0xE1, CHR 0x9A, CHR 0x80],
      [CHR 0xE2, CHR 0x80, CHR 0x80], [CHR 0xE2, CHR 0x80, CHR 0x81],
      [CHR 0xE2, CHR 0x80, CHR 0x82], [CHR 0xE2, CHR 0x80, CHR 0x83],
      [CHR 0xE2, CHR 0x80, CHR 0x84], [CHR 0xE2, CHR 0x80, CHR 0x85],
      [CHR 0xE2, CHR 0x80, CHR 0x86], [CHR 0xE2, CHR 0x80, CHR 0x87],
      [CHR 0xE2, CHR 0x80, CHR 0x88], [CHR 0xE2, CHR 0x80, CHR 0x89],
      [CHR 0xE2, CHR 0x80, CHR 0x8A],
      [CHR 0xE2, CHR 0x80, CHR 0xA8], [CHR 0xE2, CHR 0x80, CHR 0xA9],
      [CHR 0xE2, CHR 0x80, CHR 0xAF], [CHR 0xE2, CHR 0x81, CHR 0x9F],
      [CHR 0xE3, CHR 0x80, CHR 0x80]]"

definition leadingSpace :: "string \<Rightarrow> nat" where
  "leadingSpace s = (case find (\<lambda>e. prefix e s) spaceRunes of None \<Rightarrow> 0 | Some e \<Rightarrow> length e)"

definition trailingSpace :: "string \<Rightarrow> nat" where
  "trailingSpace s = (case find (\<lambda>e. suffix e s) spaceRunes of None \<Rightarrow> 0 | Some e \<Rightarrow> length e)"

lemma find_SomeD: "find P xs = Some x \<Longrightarrow> x \<in> set xs \<and> P x"
  by (induction xs) (auto split: if_splits)

lemma find_prefix_length: "find (\<lambda>e. prefix e s) es = Some e \<Longrightarrow> length e \<le> length s"
  by (auto dest: find_SomeD prefix_length_le)

lemma find_suffix_length: "find (\<lambda>e. suffix e s) es = Some e \<Longrightarrow> length e \<le> length s"
  by (auto dest: find_SomeD suffix_length_le)

lemma leadingSpace_le: "leadingSpace s \<le> length s"
  by (auto simp: leadingSpace_def split: option.splits dest: find_prefix_length)

lemma trailingSpace_le: "trailingSpace s \<le> length s"
  by (auto simp: trailingSpace_def split: option.splits dest: find_suffix_length)

function TrimLeftSpace :: "string \<Rightarrow> string" where
  "TrimLeftSpace s = (if leadingSpace s = 0 then s else TrimLeftSpace (drop (leadingSpace s) s))"
  by pat_completeness auto
termination
proof (relation "measure length")
  fix s :: string
  assume "leadingSpace s \<noteq> 0"
  with leadingSpace_le [of s] show "(drop (leadingSpace s) s, s) \<in> measure length"
    by (cases s) auto
qed simp

function TrimRightSpace :: "string \<Rightarrow> string" where
  "TrimRightSpace s =
     (if trailingSpace s = 0 then s else TrimRightSpace (take (length s - trailingSpace s) s))"
  by pat_completeness auto
termination
proof (relation "measure length")
  fix s :: string
  assume "trailingSpace s \<noteq> 0"
  with trailingSpace_le [of s] show "(take (length s - trailingSpace s) s, s) \<in> measure length"
    by (cases s) auto
qed simp

declare TrimLeftSpace.simps [simp del] TrimRightSpace.simps [simp del]

definition TrimSpace :: "string \<Rightarrow> string" where
  "TrimSpace s = TrimRightSpace (TrimLeftSpace s)"

text \<open>
  \<open>asciiSpace\<close> is the table of the same name in package strings. \<open>startsNoSpace c\<close>:
  no space rune has an encoding that starts with the byte \<open>c\<close>.
\<close>

definition asciiSpace :: "char \<Rightarrow> bool" where
  "asciiSpace c = (c \<in> set [CHR 0x09, CHR 0x0A, CHR 0x0B, CHR 0x0C, CHR 0x0D, CHR 0x20])"

definition startsNoSpace :: "char \<Rightarrow> bool" where
  "startsNoSpace c = list_all (\<lambda>e. hd e \<noteq> c) spaceRunes"

definition HasPrefix :: "string \<Rightarrow> string \<Rightarrow> bool" where
  "HasPrefix s p = prefix p s"

fun Contains :: "string \<Rightarrow> string \<Rightarrow> bool" where
  "Contains [] substr = (substr = [])"
| "Contains (c # s) substr = (prefix substr (c # s) \<or> Contains s substr)"

text \<open>\<open>strconv.Itoa\<close> on a number that is not negative.\<close>

function Itoa :: "nat \<Rightarrow> string" where
  "Itoa n = (if n < 10 then [char_of (48 + n)] else Itoa (n div 10) @ [char_of (48 + n mod 10)])"
  by pat_completeness auto
termination
  by (relation "measure id") auto

declare Itoa.simps [simp del]

section \<open>Package regexp\<close>

text \<open>
  The eleven patterns of \<open>isSafeQuery\<close> are written in a small part of the RE2 syntax:
  \<open>\b\<close> (an ASCII word boundary), \<open>\s+\<close> (one or more of \<open>\t \n \f \r\<close> and the blank),
  \<open>.*\<close> (any characters but the newline) and letters that stand for themselves.
  \<open>compile\<close> parses this part of the syntax and answers \<open>None\<close> on anything else.
  All four operators look at single ASCII bytes or skip over bytes that are not the
  newline, so matching byte by byte agrees with the matching rune by rune of Go.
\<close>

datatype node = WordBoundary | Literal char | PlusSpace | StarAny

definition backslash :: char where
  "backslash = CHR 0x5C"

definition isLetter :: "char \<Rightarrow> bool" where
  "isLetter c = (let n = (of_char c :: nat) in (65 \<le> n \<and> n \<le> 90) \<or> (97 \<le> n \<and> n \<le> 122))"

fun compile :: "string \<Rightarrow> node list option" where
  "compile [] = Some []"
| "compile [c] = (if isLetter c then Some [Literal c] else None)"
| "compile (c # d # r) =
     (if c = backslash \<and> d = CHR ''b'' then map_option (Cons WordBoundary) (compile r)
      else if c = backslash \<and> d = CHR ''s'' then
        (case r of
           [] \<Rightarrow> None
         | p # r' \<Rightarrow> if p = CHR ''+'' then map_option (Cons PlusSpace) (compile r') else None)
      else if c = CHR ''.'' \<and> d = CHR ''*'' then map_option (Cons StarAny) (compile r)
      else if isLetter c then map_option (Cons (Literal c)) (compile (d # r))
      else None)"

definition isWordChar :: "char \<Rightarrow> bool" where
  "isWordChar c =
     (let n = (of_char c :: nat) in
        (48 \<le> n \<and> n \<le> 57) \<or> (65 \<le> n \<and> n \<le> 90) \<or> (97 \<le> n \<and> n \<le> 122) \<or> n = 95)"

definition isSpaceClass :: "char \<Rightarrow> bool" where
  "isSpaceClass c = (c \<in> set [CHR 0x09, CHR 0x0A, CHR 0x0C, CHR 0x0D, CHR 0x20])"

text \<open>
  \<open>atBoundary p s\<close>: the position between the byte \<open>p\<close> before it (\<open>None\<close> at the start
  of the text) and the rest \<open>s\<close> of the text is a word boundary.
\<close>

definition atBoundary :: "char option \<Rightarrow> string \<Rightarrow> bool" where
  "atBoundary p s =
     ((case p of None \<Rightarrow> False | Some c \<Rightarrow> isWordChar c)
        \<noteq> (case s of [] \<Rightarrow> False | c # _ \<Rightarrow> isWordChar c))"

text \<open>
  \<open>matchHere ns p s\<close>: the nodes \<open>ns\<close>, in sequence, match a prefix of \<open>s\<close>, where \<open>p\<close>
  is the byte before \<open>s\<close>. \<open>matchAnywhere\<close> tries every start position, as the
  unanchored \<open>regexp.MatchString\<close> does.
\<close>

fun matchHere :: "node list \<Rightarrow> char option \<Rightarrow> string \<Rightarrow> bool" where
  "matchHere [] p s = True"
| "matchHere (WordBoundary # ns) p s = (atBoundary p s \<and> matchHere ns p s)"
| "matchHere (Literal c # ns) p [] = False"
| "matchHere (Literal c # ns) p (x # s) = (x = c \<and> matchHere ns (Some x) s)"
| "matchHere (PlusSpace # ns) p [] = False"
| "matchHere (PlusSpace # ns) p (x # s) =
     (isSpaceClass x \<and> (matchHere ns (Some x) s \<or> matchHere (PlusSpace # ns) (Some x) s))"
| "matchHere (StarAny # ns) p [] = matchHere ns p []"
| "matchHere (StarAny # ns) p (x # s) =
     (matchHere ns p (x # s) \<or> (x \<noteq> CHR 0x0A \<and> matchHere (StarAny # ns) (Some x) s))"

fun matchAnywhere :: "node list \<Rightarrow> char option \<Rightarrow> string \<Rightarrow> bool" where
  "matchAnywhere ns p [] = matchHere ns p []"
| "matchAnywhere ns p (x # s) = (matchHere ns p (x # s) \<or> matchAnywhere ns (Some x) s)"

definition MatchString :: "string \<Rightarrow> string \<Rightarrow> error + bool" where
  "MatchString pattern s =
     (case compile pattern of
        None \<Rightarrow> Inl (ErrorString (''error parsing regexp: '' @ pattern))
      | Some ns \<Rightarrow> Inr (matchAnywhere ns None s))"

subsection \<open>What the patterns match\<close>

text \<open>
  What the regular expressions of the source accept, said without a regular expression;
  each of the three predicates is proved below to be the answer of \<open>MatchString\<close> for
  the patterns of its shape. \<open>wordBefore u\<close>: the text \<open>u\<close> ends with a word character (a
  letter, a digit or the underscore); \<open>wordAfter v\<close>: the text \<open>v\<close> starts with one.
  White space is what \<open>\s+\<close> accepts: one or more of \<open>\t \n \f \r\<close> and the blank, and not
  the vertical tab.
  \<^item> \<open>keyword k s\<close>, for \<open>\bk\b\<close>: \<open>k\<close> stands in \<open>s\<close> with no word character next to it
    on either side.
  \<^item> \<open>keywordPair k1 k2 s\<close>, for \<open>\bk1\s+k2\b\<close>: \<open>k1\<close>, white space and \<open>k2\<close> stand in
    \<open>s\<close>, with no word character before \<open>k1\<close> and none after \<open>k2\<close>.
  \<^item> \<open>updateLineSet s\<close>, for \<open>\bupdate\s+.*\s+set\b\<close>: \<open>update\<close>, white space, a text
    with no newline in it (what \<open>.*\<close> accepts), white space and \<open>set\<close> stand in \<open>s\<close>,
    with no word character before \<open>update\<close> and none after \<open>set\<close>.
\<close>

definition wordBefore :: "string \<Rightarrow> bool" where
  "wordBefore u = (u \<noteq> [] \<and> isWordChar (last u))"

definition wordAfter :: "string \<Rightarrow> bool" where
  "wordAfter v = (v \<noteq> [] \<and> isWordChar (hd v))"

definition whiteSpace :: "string \<Rightarrow> bool" where
  "whiteSpace w = (w \<noteq> [] \<and> list_all isSpaceClass w)"


definition keywordPair :: "string \<Rightarrow> string \<Rightarrow> string \<Rightarrow> bool" where
  "keywordPair k1 k2 s =
     (\<exists>u w v. s = u @ k1 @ w @ k2 @ v \<and> \<not> wordBefore u \<and> whiteSpace w \<and> \<not> wordAfter v)"

definition updateLineSet :: "string \<Rightarrow> bool" where
  "updateLineSet s =
     (\<exists>u w m w' v. s = u @ ''update'' @ w @ m @ w' @ ''set'' @ v \<and> \<not> wordBefore u \<and>
        whiteSpace w \<and> CHR 0x0A \<notin> set m \<and> whiteSpace w' \<and> \<not> wordAfter v)"

text \<open>
  \<open>prevAfter p u\<close>: the byte before the position reached from a position after \<open>p\<close> by
  reading \<open>u\<close>.
\<close>

definition prevAfter :: "char option \<Rightarrow> string \<Rightarrow> char option" where
  "prevAfter p u = (if u = [] then p else Some (last u))"


subsection \<open>The rules in the words of the specification\<close>

text \<open>
  The specification gives the rules "semantically, not as literal regex syntax": a
  pair of keywords is the first keyword "followed by whitespace then the target
  keyword", and the rule for \<open>update\<close> is "the word update, then any characters, then
  set", all with word boundaries. These two predicates follow those words, to be
  compared with what the patterns accept.
  \<^item> \<open>spec_whiteSpace w\<close>: one or more white space characters, in the sense of the
    trimming of step 1 (\<open>asciiSpace\<close>: \<open>\t \n \v \f \r\<close> and the blank).
  \<^item> \<open>spec_keywordPair k1 k2 s\<close>: \<open>k1\<close>, white space and \<open>k2\<close> stand in \<open>s\<close>, with no word
    character before \<open>k1\<close> and none after \<open>k2\<close>.
  \<^item> \<open>spec_updateAnySet s\<close>: the word \<open>update\<close>, any characters \<open>m\<close> and the word \<open>set\<close>
    stand in \<open>s\<close>. This is the strictest reading: both are whole words, so \<open>m\<close> starts
    and ends with a character that is not a word character.
\<close>

definition spec_whiteSpace :: "string \<Rightarrow> bool" where
  "spec_whiteSpace w = (w \<noteq> [] \<and> list_all asciiSpace w)"

definition spec_keywordPair :: "string \<Rightarrow> string \<Rightarrow> string \<Rightarrow> bool" where
  "spec_keywordPair k1 k2 s =
     (\<exists>u w v. s = u @ k1 @ w @ k2 @ v \<and> \<not> wordBefore u \<and> spec_whiteSpace w \<and> \<not> wordAfter v)"

definition spec_updateAnySet :: "string \<Rightarrow> bool" where
  "spec_updateAnySet s =
     (\<exists>u m v. s = u @ ''update'' @ m @ ''set'' @ v \<and> \<not> wordBefore u \<and>
        m \<noteq> [] \<and> \<not> wordAfter m \<and> \<not> wordBefore m \<and> \<not> wordAfter v)"

section \<open>isSafeQuery\<close>

definition dangerousPatterns :: "string list" where
  "dangerousPatterns =
     [backslash # ''bdrop'' @ backslash # ''s+table'' @ backslash # ''b'',
      backslash # ''bdrop'' @ backslash # ''s+database'' @ backslash # ''b'',
      backslash # ''bdrop'' @ backslash # ''s+schema'' @ backslash # ''b'',
      backslash # ''btruncate'' @ backslash # ''b'',
      backslash # ''bdelete'' @ backslash # ''s+from'' @ backslash # ''b'',
      backslash # ''bupdate'' @ backslash # ''s+.*'' @ backslash # ''s+set'' @ backslash # ''b'',
      backslash # ''binsert'' @ backslash # ''s+into'' @ backslash # ''b'',
      backslash # ''balter'' @ backslash # ''s+table'' @ backslash # ''b'',
      backslash # ''bcreate'' @ backslash # ''s+table'' @ backslash # ''b'',
      backslash # ''bgrant'' @ backslash # ''b'',
      backslash # ''brevoke'' @ backslash # ''b'']"

text \<open>
  The loop over the patterns: the first pattern that fails to compile or that matches
  ends it with an error; \<open>None\<close> when the loop runs to its end.
\<close>

fun scanPatterns :: "string list \<Rightarrow> string \<Rightarrow> error option" where
  "scanPatterns [] query = None"
| "scanPatterns (pattern # ps) query =
     (case MatchString pattern query of
        Inl err \<Rightarrow> Some (Wrapped ''regex error'' err)
      | Inr matched \<Rightarrow>
          if matched
          then Some (ErrorString (''query contains potentially dangerous operation: '' @ pattern))
          else scanPatterns ps query)"

definition normalizeQuery :: "(string \<Rightarrow> string) \<Rightarrow> string \<Rightarrow> string" where
  "normalizeQuery U query = TrimSpace (ToLower U query)"

definition isSafeQuery :: "(string \<Rightarrow> string) \<Rightarrow> string \<Rightarrow> error option" where
  "isSafeQuery U query =
     (let query = normalizeQuery U query in
        case scanPatterns dangerousPatterns query of
          Some err \<Rightarrow> Some err
        | None \<Rightarrow>
            if \<not> HasPrefix query ''select'' \<and> \<not> HasPrefix query ''with''
            then Some (ErrorString ''only SELECT and CTE (WITH) queries are allowed'')
            else None)"

section \<open>Values of the driver and JSON documents\<close>

text \<open>
  A \<open>driver.Value\<close> is \<open>nil\<close>, an \<open>int64\<close>, a \<open>float64\<close>, a \<open>bool\<close>, a \<open>[]byte\<close>, a
  \<open>string\<close> or a \<open>time.Time\<close>. The program never computes with a float or a time: it
  hands them to \<open>json.Marshal\<close>. A finite float is kept as mantissa and binary exponent.
  A time is kept as its RFC 3339 text, or as \<open>NoRFC3339\<close> when it has none (a year
  outside 0..9999), where \<open>Time.MarshalJSON\<close> fails.
\<close>

datatype float64 = NaN | PosInf | NegInf | Finite int int

datatype time = RFC3339 string | NoRFC3339

datatype Value = Nil | Int64 int | Float64 float64 | Bool bool | Bytes string
  | String string | Time time

text \<open>
  A slice is \<open>nil\<close> or has a backing array; \<open>append\<close> to a \<open>nil\<close> slice allocates one.
\<close>

datatype 'a slice = NilSlice | Slice "'a list"

fun append_slice :: "'a slice \<Rightarrow> 'a \<Rightarrow> 'a slice" where
  "append_slice NilSlice x = Slice [x]"
| "append_slice (Slice xs) x = Slice (xs @ [x])"

fun elems :: "'a slice \<Rightarrow> 'a list" where
  "elems NilSlice = []"
| "elems (Slice xs) = xs"

definition len :: "'a slice \<Rightarrow> nat" where
  "len s = length (elems s)"

text \<open>
  The output of \<open>json.Marshal\<close> is kept as the syntax tree of the JSON text it writes,
  so that the model does not depend on how strings are escaped and numbers printed.
  \<open>JBase64\<close> is the string that \<open>encoding/json\<close> writes for a \<open>[]byte\<close>. The members of
  an object stand in the order of their keys, as \<open>encoding/json\<close> writes a map.
  A text that the program builds is the sequence of its pieces: literal characters and
  JSON documents.
\<close>

datatype json = JNull | JBool bool | JInt int | JFloat int int | JString string
  | JBase64 string | JArray "json list" | JObject "(string \<times> json) list"

datatype piece = Str string | Doc json

type_synonym content = "piece list"

text \<open>
  \<open>json.Marshal\<close> returns \<open>(nil, err)\<close> when it fails; \<open>ignoringError\<close> is the text
  \<open>string(b)\<close> of its first result \<open>b\<close> where the program drops the second.
\<close>

definition ignoringError :: "error + json \<Rightarrow> content" where
  "ignoringError r = (case r of Inl err \<Rightarrow> [] | Inr j \<Rightarrow> [Doc j])"

fun Marshal_value :: "Value \<Rightarrow> error + json" where
  "Marshal_value Nil = Inr JNull"
| "Marshal_value (Int64 n) = Inr (JInt n)"
| "Marshal_value (Float64 NaN) = Inl (ErrorString ''json: unsupported value: NaN'')"
| "Marshal_value (Float64 PosInf) = Inl (ErrorString ''json: unsupported value: +Inf'')"
| "Marshal_value (Float64 NegInf) = Inl (ErrorString ''json: unsupported value: -Inf'')"
| "Marshal_value (Float64 (Finite m e)) = Inr (JFloat m e)"
| "Marshal_value (Bool b) = Inr (JBool b)"
| "Marshal_value (Bytes b) = Inr (JBase64 b)"
| "Marshal_value (String s) = Inr (JString s)"
| "Marshal_value (Time (RFC3339 s)) = Inr (JString s)"
| "Marshal_value (Time NoRFC3339) =
     Inl (ErrorString ''json: error calling MarshalJSON for type time.Time: Time.MarshalJSON: year outside of range [0,9999]'')"

text \<open>
  \<open>Marshal_members f kvs\<close> encodes the members of an object in the order given and
  stops at the first value that fails; \<open>Marshal_list\<close> does so for the elements of an
  array.
\<close>

fun Marshal_members :: "('a \<Rightarrow> error + json) \<Rightarrow> (string \<times> 'a) list \<Rightarrow> error + (string \<times> json) list" where
  "Marshal_members f [] = Inr []"
| "Marshal_members f ((k, v) # kvs) =
     (case f v of
        Inl err \<Rightarrow> Inl err
      | Inr j \<Rightarrow>
          (case Marshal_members f kvs of Inl err \<Rightarrow> Inl err | Inr js \<Rightarrow> Inr ((k, j) # js)))"

fun Marshal_list :: "('a \<Rightarrow> error + json) \<Rightarrow> 'a list \<Rightarrow> error + json list" where
  "Marshal_list f [] = Inr []"
| "Marshal_list f (x # xs) =
     (case f x of
        Inl err \<Rightarrow> Inl err
      | Inr j \<Rightarrow> (case Marshal_list f xs of Inl err \<Rightarrow> Inl err | Inr js \<Rightarrow> Inr (j # js)))"

text \<open>
  A Go map is kept as the list of its entries, with one entry per key
  (\<open>m[k] = v\<close> is \<open>AList.update k v m\<close>). \<open>Marshal_map\<close> writes the entries sorted by key.
\<close>

definition Marshal_map :: "('a \<Rightarrow> error + json) \<Rightarrow> (string \<times> 'a) list \<Rightarrow> error + json" where
  "Marshal_map f m =
     (case Marshal_members f (sort_key fst m) of Inl err \<Rightarrow> Inl err | Inr js \<Rightarrow> Inr (JObject js))"

definition Marshal_slice :: "('a \<Rightarrow> error + json) \<Rightarrow> 'a slice \<Rightarrow> error + json" where
  "Marshal_slice f s =
     (case s of
        NilSlice \<Rightarrow> Inr JNull
      | Slice xs \<Rightarrow> (case Marshal_list f xs of Inl err \<Rightarrow> Inl err | Inr js \<Rightarrow> Inr (JArray js)))"

definition Marshal_string :: "string \<Rightarrow> error + json" where
  "Marshal_string s = Inr (JString s)"

section \<open>The database\<close>

text \<open>
  Every call of \<open>db.QueryContext\<close> is recorded as the statement text and the bound
  arguments; the trace of a request is the list of the calls so far. The answer of the
  database may depend on the calls made before. The program sends three kinds of
  statement, and the database answers each with an error or a cursor:
  \<^item> the text of the caller: the cursor has the result of \<open>rows.Columns()\<close>, the rows
    that \<open>rows.Next()\<close> delivers before it answers \<open>false\<close>, each a list of driver values,
    and the error that ended the iteration, if one did (the field \<open>lasterr\<close> of
    \<open>sql.Rows\<close>, which \<open>rows.Err()\<close> reports): the database raises it after the call of
    \<open>QueryContext\<close> has returned, while the rows are read;
  \<^item> the statement over \<open>information_schema.tables\<close> and the one over
    \<open>information_schema.columns\<close>: the rows that \<open>rows.Next()\<close> delivers, lists of cells,
    a text or \<open>NULL\<close>.
  The driver \<open>lib/pq\<close> answers \<open>rows.Columns()\<close> with a \<open>nil\<close> slice for a statement that
  has no row description (\<open>SELECT ... INTO\<close> is one), and with a slice of the names
  otherwise. No function of the program calls \<open>rows.Err()\<close>. A cancelled context and a
  lost connection are errors of the database.
\<close>

type_synonym call = "string \<times> string list"

type_synonym trace = "call list"

record sql_Rows =
  columnNames :: "error + string slice"
  remaining :: "Value list list"
  lasterr :: "error option"

type_synonym cell = "string option"

record database =
  answer :: "trace \<Rightarrow> string \<Rightarrow> error + sql_Rows"
  answerTables :: "trace \<Rightarrow> error + cell list list"
  answerColumns :: "trace \<Rightarrow> string \<Rightarrow> error + cell list list"

definition spaces :: "nat \<Rightarrow> string" where
  "spaces n = replicate n (CHR '' '')"

definition listTablesSQL :: string where
  "listTablesSQL =
     CHR 0x0A # spaces 8 @ ''SELECT table_name '' @
     CHR 0x0A # spaces 8 @ ''FROM information_schema.tables '' @
     CHR 0x0A # spaces 8 @ ''WHERE table_schema = '' @ CHR 0x27 # ''public'' @ [CHR 0x27] @
     CHR 0x0A # spaces 4"

text \<open>
  The statement over \<open>information_schema.columns\<close> stands twice in the source, indented
  by 8 blanks in \<open>DescribeTable\<close> and by 12 in \<open>getSchemaInfo\<close>.
\<close>

definition describeSQL :: "nat \<Rightarrow> string" where
  "describeSQL i =
     CHR 0x0A # spaces i @ ''SELECT column_name, data_type'' @
     CHR 0x0A # spaces i @ ''FROM information_schema.columns'' @
     CHR 0x0A # spaces i @ ''WHERE table_schema = '' @ CHR 0x27 # ''public'' @ CHR 0x27 #
       '' AND table_name = $1'' @
     CHR 0x0A # spaces i @ ''ORDER BY ordinal_position'' @
     CHR 0x0A # spaces (i - 4)"

definition QueryContext :: "database \<Rightarrow> trace \<Rightarrow> string \<Rightarrow> (error + sql_Rows) \<times> trace" where
  "QueryContext db tr query = (answer db tr query, tr @ [(query, [])])"

definition QueryContext_tables :: "database \<Rightarrow> trace \<Rightarrow> (error + cell list list) \<times> trace" where
  "QueryContext_tables db tr = (answerTables db tr, tr @ [(listTablesSQL, [])])"

definition QueryContext_columns ::
    "database \<Rightarrow> trace \<Rightarrow> nat \<Rightarrow> string \<Rightarrow> (error + cell list list) \<times> trace" where
  "QueryContext_columns db tr i table = (answerColumns db tr table, tr @ [(describeSQL i, [table])])"

text \<open>
  \<open>rows.Scan\<close> fails when the number of destinations is not the number of columns of
  the row, and when a \<open>NULL\<close> is to be stored in a \<open>*string\<close>. \<open>Scan\<close> is the call with
  \<open>n\<close> destinations of type \<open>*interface{}\<close>, \<open>Scan1\<close> is \<open>rows.Scan(&table)\<close> and \<open>Scan2\<close>
  is \<open>rows.Scan(&name, &dtype)\<close>.
\<close>

definition arityError :: "nat \<Rightarrow> nat \<Rightarrow> error" where
  "arityError cols dests =
     ErrorString (''sql: expected '' @ Itoa cols @ '' destination arguments in Scan, not '' @ Itoa dests)"

definition nullError :: "nat \<Rightarrow> string \<Rightarrow> error" where
  "nullError i name =
     ErrorString (''sql: Scan error on column index '' @ Itoa i @ '', name '' @ CHR 0x22 # name @
       CHR 0x22 # '': converting NULL to string is unsupported'')"

definition Scan :: "nat \<Rightarrow> Value list \<Rightarrow> error + Value list" where
  "Scan n row = (if length row \<noteq> n then Inl (arityError (length row) n) else Inr row)"

fun Scan1 :: "cell list \<Rightarrow> error + string" where
  "Scan1 [Some table] = Inr table"
| "Scan1 [None] = Inl (nullError 0 ''table_name'')"
| "Scan1 row = Inl (arityError (length row) 1)"

fun Scan2 :: "cell list \<Rightarrow> error + string \<times> string" where
  "Scan2 [Some name, Some dtype] = Inr (name, dtype)"
| "Scan2 [None, d] = Inl (nullError 0 ''column_name'')"
| "Scan2 [Some name, None] = Inl (nullError 1 ''data_type'')"
| "Scan2 row = Inl (arityError (length row) 2)"

section \<open>The tools\<close>

datatype argument = StringArgument string | OtherArgument

type_synonym CallToolRequest = "string \<rightharpoonup> argument"

datatype CallToolResult = ToolResultText content | ToolResultError content

definition RequireString :: "CallToolRequest \<Rightarrow> string \<Rightarrow> error + string" where
  "RequireString req key =
     (case req key of
        None \<Rightarrow> Inl (ErrorString (''required argument '' @ CHR 0x22 # key @ CHR 0x22 # '' not found''))
      | Some (StringArgument str) \<Rightarrow> Inr str
      | Some OtherArgument \<Rightarrow>
          Inl (ErrorString (''argument '' @ CHR 0x22 # key @ CHR 0x22 # '' is not a string'')))"

subsection \<open>ListTables and DescribeTable\<close>

fun scanTables :: "cell list list \<Rightarrow> string slice \<Rightarrow> error + string slice" where
  "scanTables [] tables = Inr tables"
| "scanTables (row # rows) tables =
     (case Scan1 row of
        Inl err \<Rightarrow> Inl err
      | Inr table \<Rightarrow> scanTables rows (append_slice tables table))"

definition ListTables :: "database \<Rightarrow> trace \<Rightarrow> (error + CallToolResult) \<times> trace" where
  "ListTables db tr =
     (case QueryContext_tables db tr of
        (Inl err, tr') \<Rightarrow> (Inl (Wrapped ''failed to list tables'' err), tr')
      | (Inr rows, tr') \<Rightarrow>
          (case scanTables rows NilSlice of
             Inl err \<Rightarrow> (Inl err, tr')
           | Inr tables \<Rightarrow>
               (Inr (ToolResultText (ignoringError (Marshal_slice Marshal_string tables))), tr')))"

type_synonym column_map = "(string \<times> string) list"

fun scanColumns :: "cell list list \<Rightarrow> column_map slice \<Rightarrow> error + column_map slice" where
  "scanColumns [] columns = Inr columns"
| "scanColumns (row # rows) columns =
     (case Scan2 row of
        Inl err \<Rightarrow> Inl err
      | Inr (name, dtype) \<Rightarrow>
          scanColumns rows (append_slice columns [(''column'', name), (''type'', dtype)]))"

definition DescribeTable ::
    "database \<Rightarrow> trace \<Rightarrow> CallToolRequest \<Rightarrow> (error + CallToolResult) \<times> trace" where
  "DescribeTable db tr req =
     (case RequireString req ''table'' of
        Inl err \<Rightarrow>
          (Inr (ToolResultError [Str (''Missing required parameter '' @ CHR 0x27 # ''table'' @ [CHR 0x27])]), tr)
      | Inr table \<Rightarrow>
          (case QueryContext_columns db tr 8 table of
             (Inl err, tr') \<Rightarrow> (Inl (Wrapped ''failed to describe table'' err), tr')
           | (Inr rows, tr') \<Rightarrow>
               (case scanColumns rows NilSlice of
                  Inl err \<Rightarrow> (Inl err, tr')
                | Inr columns \<Rightarrow>
                    (Inr (ToolResultText
                       (ignoringError (Marshal_slice (Marshal_map Marshal_string) columns))), tr'))))"

subsection \<open>getSchemaInfo\<close>

type_synonym schema = "(string \<times> column_map slice) list"

fun describeAll ::
    "database \<Rightarrow> trace \<Rightarrow> string list \<Rightarrow> schema \<Rightarrow> (error + schema) \<times> trace" where
  "describeAll db tr [] schemaInfo = (Inr schemaInfo, tr)"
| "describeAll db tr (table # tables) schemaInfo =
     (case QueryContext_columns db tr 12 table of
        (Inl err, tr') \<Rightarrow> (Inl (Wrapped (''failed to describe table '' @ table) err), tr')
      | (Inr colRows, tr') \<Rightarrow>
          (case scanColumns colRows NilSlice of
             Inl err \<Rightarrow> (Inl err, tr')
           | Inr cols \<Rightarrow> describeAll db tr' tables (AList.update table cols schemaInfo)))"

definition getSchemaInfo :: "database \<Rightarrow> trace \<Rightarrow> (error + schema) \<times> trace" where
  "getSchemaInfo db tr =
     (case QueryContext_tables db tr of
        (Inl err, tr') \<Rightarrow> (Inl (Wrapped ''failed to list tables'' err), tr')
      | (Inr tableRows, tr') \<Rightarrow>
          (case scanTables tableRows NilSlice of
             Inl err \<Rightarrow> (Inl err, tr')
           | Inr tables \<Rightarrow> describeAll db tr' (elems tables) []))"

definition Marshal_schema :: "schema \<Rightarrow> error + json" where
  "Marshal_schema = Marshal_map (Marshal_slice (Marshal_map Marshal_string))"

subsection \<open>ExecuteQuery\<close>

type_synonym row_map = "(string \<times> Value) list"

record QueryResult =
  Columns :: "string slice"
  Rows :: "row_map slice"
  Count :: nat

text \<open>
  The three fields in the order of the struct. \<open>Columns\<close> is the slice that
  \<open>rows.Columns()\<close> returned, written as \<open>null\<close> when it is \<open>nil\<close>.
\<close>

definition Marshal_QueryResult :: "QueryResult \<Rightarrow> error + json" where
  "Marshal_QueryResult response =
     (case Marshal_slice Marshal_string (Columns response) of
        Inl err \<Rightarrow> Inl err
      | Inr cs \<Rightarrow>
          (case Marshal_slice (Marshal_map Marshal_value) (Rows response) of
             Inl err \<Rightarrow> Inl err
           | Inr rs \<Rightarrow>
               Inr (JObject [(''columns'', cs), (''rows'', rs),
                             (''count'', JInt (int (Count response)))])))"

text \<open>The type switch \<open>val.([]byte)\<close> on one scanned value.\<close>

fun convert :: "Value \<Rightarrow> Value" where
  "convert (Bytes b) = String b"
| "convert val = val"

text \<open>
  The inner loop \<open>for i, colName := range columns\<close>, on the columns that are left and
  the values at their indices. \<open>scanRows\<close> is the loop \<open>for rows.Next()\<close> over the rows
  that the cursor delivers; when it ends, the program builds the response and does not
  ask \<open>rows.Err()\<close> why it ended.
\<close>

fun fillRowMap :: "string list \<Rightarrow> Value list \<Rightarrow> row_map \<Rightarrow> row_map" where
  "fillRowMap (colName # columns) (val # values) rowMap =
     fillRowMap columns values (AList.update colName (convert val) rowMap)"
| "fillRowMap columns values rowMap = rowMap"

fun scanRows :: "string list \<Rightarrow> Value list list \<Rightarrow> row_map slice \<Rightarrow> error + row_map slice" where
  "scanRows columns [] results = Inr results"
| "scanRows columns (row # rows) results =
     (case Scan (length columns) row of
        Inl err \<Rightarrow> Inl (Wrapped ''failed to scan row'' err)
      | Inr values \<Rightarrow> scanRows columns rows (append_slice results (fillRowMap columns values [])))"

definition ExecuteQuery ::
    "(string \<Rightarrow> string) \<Rightarrow> database \<Rightarrow> trace \<Rightarrow> CallToolRequest \<Rightarrow> (error + CallToolResult) \<times> trace" where
  "ExecuteQuery U db tr req =
     (case RequireString req ''query'' of
        Inl err \<Rightarrow>
          (Inr (ToolResultError [Str (''Missing required parameter '' @ CHR 0x27 # ''query'' @ [CHR 0x27])]), tr)
      | Inr query \<Rightarrow>
          (case isSafeQuery U query of
             Some err \<Rightarrow> (Inl (Wrapped ''unsafe query'' err), tr)
           | None \<Rightarrow>
               (case QueryContext db tr query of
                  (Inl err, tr') \<Rightarrow>
                    if Contains (Error err) ''column'' \<or> Contains (Error err) ''table'' then
                      (case getSchemaInfo db tr' of
                         (Inl schemaErr, tr'') \<Rightarrow>
                           (Inr (ToolResultError
                              [Str (''Query failed: '' @ Error err @
                                    ''. Also failed to fetch schema: '' @ Error schemaErr)]), tr'')
                       | (Inr schemaInfo, tr'') \<Rightarrow>
                           (Inr (ToolResultError
                              (Str (''Query failed: '' @ Error err @
                                    [CHR 0x0A, CHR 0x0A] @ ''Here is the schema:'' @ [CHR 0x0A])
                               # ignoringError (Marshal_schema schemaInfo))), tr''))
                    else (Inr (ToolResultError [Str (''Query failed: '' @ Error err)]), tr')
                | (Inr rows, tr') \<Rightarrow>
                    (case columnNames rows of
                       Inl err \<Rightarrow> (Inl (Wrapped ''failed to get columns'' err), tr')
                     | Inr columns \<Rightarrow>
                         (case scanRows (elems columns) (remaining rows) (Slice []) of
                            Inl err \<Rightarrow> (Inl err, tr')
                          | Inr results \<Rightarrow>
                              (Inr (ToolResultText (ignoringError (Marshal_QueryResult
                                 \<lparr>Columns = columns, Rows = results, Count = len results\<rparr>))),
                               tr'))))))"

text \<open>
  \<open>ExecuteQuery\<close> of \<open>src/main.go\<close>, the program with the one tool \<open>postgres_query\<close>.
\<close>

definition ExecuteQuery_main ::
    "(string \<Rightarrow> string) \<Rightarrow> database \<Rightarrow> trace \<Rightarrow> CallToolRequest \<Rightarrow> (error + CallToolResult) \<times> trace" where
  "ExecuteQuery_main U db tr req =
     (case RequireString req ''query'' of
        Inl err \<Rightarrow> (Inr (ToolResultError [Str (Error err)]), tr)
      | Inr query \<Rightarrow>
          (case isSafeQuery U query of
             Some err \<Rightarrow> (Inl (Wrapped ''unsafe query'' err), tr)
           | None \<Rightarrow>
               (case QueryContext db tr query of
                  (Inl err, tr') \<Rightarrow> (Inl (Wrapped ''failed to execute query'' err), tr')
                | (Inr rows, tr') \<Rightarrow>
                    (case columnNames rows of
                       Inl err \<Rightarrow> (Inl (Wrapped ''failed to get columns'' err), tr')
                     | Inr columns \<Rightarrow>
                         (case scanRows (elems columns) (remaining rows) (Slice []) of
                            Inl err \<Rightarrow> (Inl err, tr')
                          | Inr results \<Rightarrow>
                              (case Marshal_QueryResult
                                      \<lparr>Columns = columns, Rows = results, Count = len results\<rparr> of
                                 Inl err \<Rightarrow> (Inl (Wrapped ''failed to marshal response'' err), tr')
                               | Inr responseJSON \<Rightarrow>
                                   (Inr (ToolResultText [Doc responseJSON]), tr')))))))"

subsection \<open>The catalog of PostgreSQL\<close>

text \<open>
  A row of the view \<open>information_schema.columns\<close>, with the five columns that the
  statement of \<open>DescribeTable\<close> names. \<open>selectColumns\<close> is what that statement selects
  when \<open>$1\<close> is bound to \<open>table\<close>: the rows of the public schema for that table name,
  ordered by \<open>ordinal_position\<close>, projected to \<open>column_name\<close> and \<open>data_type\<close>.
\<close>

record column_row =
  table_schema :: string
  table_name :: string
  column_name :: string
  data_type :: string
  ordinal_position :: nat

definition publicColumns :: "column_row list \<Rightarrow> string \<Rightarrow> column_row list" where
  "publicColumns catalog table =
     sort_key ordinal_position
       (filter (\<lambda>c. table_schema c = ''public'' \<and> table_name c = table) catalog)"

definition selectColumns :: "column_row list \<Rightarrow> string \<Rightarrow> cell list list" where
  "selectColumns catalog table =
     map (\<lambda>c. [Some (column_name c), Some (data_type c)]) (publicColumns catalog table)"

text \<open>
  A row of the view \<open>information_schema.tables\<close> is kept as the pair of \<open>table_schema\<close>
  and \<open>table_name\<close>. \<open>selectTables\<close> is what the statement of \<open>ListTables\<close> selects: the
  table names of the public schema.
\<close>

type_synonym table_row = "string \<times> string"

definition selectTables :: "table_row list \<Rightarrow> cell list list" where
  "selectTables tables = map (\<lambda>t. [Some (snd t)]) (filter (\<lambda>t. fst t = ''public'') tables)"

text \<open>The JSON object of one column, as \<open>DescribeTable\<close> writes it.\<close>

definition columnObject :: "column_row \<Rightarrow> json" where
  "columnObject c = JObject [(''column'', JString (column_name c)), (''type'', JString (data_type c))]"

text \<open>The map that \<open>DescribeTable\<close> and \<open>getSchemaInfo\<close> build for one column.\<close>

definition columnMap :: "column_row \<Rightarrow> column_map" where
  "columnMap c = [(''column'', column_name c), (''type'', data_type c)]"

text \<open>\<open>catalogCall c\<close>: the call \<open>c\<close> sends one of the two statements of \<open>getSchemaInfo\<close>.\<close>

definition catalogCall :: "call \<Rightarrow> bool" where
  "catalogCall c = (fst c = listTablesSQL \<or> fst c = describeSQL 12)"

subsection \<open>Example databases\<close>

definition exampleCatalog :: "column_row list" where
  "exampleCatalog =
     [\<lparr>table_schema = ''public'', table_name = ''users'', column_name = ''avatar'',
        data_type = ''bytea'', ordinal_position = 2\<rparr>,
      \<lparr>table_schema = ''audit'', table_name = ''users'', column_name = ''seen'',
        data_type = ''date'', ordinal_position = 1\<rparr>,
      \<lparr>table_schema = ''public'', table_name = ''users'', column_name = ''id'',
        data_type = ''integer'', ordinal_position = 1\<rparr>]"




definition nanQuery :: string where
  "nanQuery = ''SELECT '' @ CHR 0x27 # ''NaN'' @ CHR 0x27 # ''::float8 AS x''"

text \<open>
  \<open>seriesQuery\<close> divides by zero at its second row: the database delivers the first row
  and then raises the error. \<open>SELECT id INTO t2 FROM users\<close> starts with \<open>select\<close>,
  creates a table and has no row description.
\<close>

definition seriesQuery :: string where
  "seriesQuery = ''SELECT 10/(2-x) AS q FROM generate_series(1,3) x''"

definition exampleDB :: database where
  "exampleDB =
     \<lparr>answer = (\<lambda>tr query.
        if query = ''SELECT id, avatar FROM users'' then
          Inr \<lparr>columnNames = Inr (Slice [''id'', ''avatar'']),
               remaining = [[Int64 1, Bytes ''png''], [Int64 2, Nil]], lasterr = None\<rparr>
        else if query = ''SELECT 1 AS a, 2 AS a'' then
          Inr \<lparr>columnNames = Inr (Slice [''a'', ''a'']), remaining = [[Int64 1, Int64 2]],
               lasterr = None\<rparr>
        else if query = ''SELECT avatar AS a, id AS a FROM users'' then
          Inr \<lparr>columnNames = Inr (Slice [''a'', ''a'']),
               remaining = [[Bytes ''png'', Int64 1], [Nil, Int64 2]], lasterr = None\<rparr>
        else if query = nanQuery then
          Inr \<lparr>columnNames = Inr (Slice [''x'']), remaining = [[Float64 NaN]], lasterr = None\<rparr>
        else if query = seriesQuery then
          Inr \<lparr>columnNames = Inr (Slice [''q'']), remaining = [[Int64 10]],
               lasterr = Some (ErrorString ''pq: division by zero'')\<rparr>
        else if query = ''SELECT id INTO t2 FROM users'' then
          Inr \<lparr>columnNames = Inr NilSlice, remaining = [], lasterr = None\<rparr>
        else if query = ''SELECT 1/0'' then Inl (ErrorString ''pq: division by zero'')
        else Inl (ErrorString ''pq: column does not exist'')),
      answerTables = (\<lambda>tr. Inr [[Some ''users'']]),
      answerColumns = (\<lambda>tr table. Inr (selectColumns exampleCatalog table))\<rparr>"

definition brokenDB :: database where
  "brokenDB = exampleDB\<lparr>answerTables := (\<lambda>tr. Inl (ErrorString ''driver: bad connection''))\<rparr>"

definition emptyDB :: database where
  "emptyDB =
     exampleDB\<lparr>answerTables := (\<lambda>tr. Inr (selectTables [(''pg_catalog'', ''pg_class'')]))\<rparr>"

section \<open>Properties of the policy\<close>

subsection \<open>Trimming and lower-casing\<close>

lemma leadingSpace_asciiSpace:
  assumes "asciiSpace c"
  shows "leadingSpace (c # s) = 1"
proof -
  from assms consider "c = CHR 0x09" | "c = CHR 0x0A" | "c = CHR 0x0B" | "c = CHR 0x0C"
    | "c = CHR 0x0D" | "c = CHR 0x20"
    by (auto simp: asciiSpace_def)
  then show ?thesis
    by cases (simp_all add: leadingSpace_def spaceRunes_def)
qed

lemma TrimLeftSpace_asciiSpace: "asciiSpace c \<Longrightarrow> TrimLeftSpace (c # s) = TrimLeftSpace s"
  by (subst TrimLeftSpace.simps) (simp add: leadingSpace_asciiSpace)

lemma TrimLeftSpace_Nil: "TrimLeftSpace [] = []"
  by (subst TrimLeftSpace.simps) (simp add: leadingSpace_def spaceRunes_def)

lemma TrimRightSpace_Nil: "TrimRightSpace [] = []"
  by (subst TrimRightSpace.simps) (simp add: trailingSpace_def spaceRunes_def)

lemma TrimLeftSpace_spaces: "list_all asciiSpace ws \<Longrightarrow> TrimLeftSpace (ws @ s) = TrimLeftSpace s"
  by (induction ws) (simp_all add: TrimLeftSpace_asciiSpace)

lemma asciiSpace_lowerByte: "asciiSpace c \<Longrightarrow> lowerByte c = c"
  by (auto simp: asciiSpace_def lowerByte_def)

lemma asciiSpace_isASCII: "list_all asciiSpace ws \<Longrightarrow> isASCII ws"
  by (induction ws) (auto simp: asciiSpace_def isASCII_def)

lemma ToLower_spaces: "list_all asciiSpace ws \<Longrightarrow> ToLower U ws = ws"
  by (simp add: ToLower_def asciiSpace_isASCII list_all_iff asciiSpace_lowerByte map_idI)

lemma normalizeQuery_spaces:
  assumes "list_all asciiSpace ws"
  shows "normalizeQuery U ws = []"
proof -
  have "TrimLeftSpace ws = []"
    using TrimLeftSpace_spaces [OF assms, of "[]"] by (simp add: TrimLeftSpace_Nil)
  with assms show ?thesis
    by (simp add: normalizeQuery_def TrimSpace_def ToLower_spaces TrimRightSpace_Nil)
qed

text \<open>A byte that starts no space rune stays at the front of the trimmed string.\<close>

lemma spaceRunes_nonempty: "e \<in> set spaceRunes \<Longrightarrow> e \<noteq> []"
  by (auto simp: spaceRunes_def)

lemma leadingSpace_startsNoSpace:
  assumes "startsNoSpace c"
  shows "leadingSpace (c # s) = 0"
proof -
  have "find (\<lambda>e. prefix e (c # s)) spaceRunes = None"
  proof (rule ccontr)
    assume "find (\<lambda>e. prefix e (c # s)) spaceRunes \<noteq> None"
    then obtain e where "e \<in> set spaceRunes" "prefix e (c # s)"
      by (auto dest: find_SomeD)
    with assms spaceRunes_nonempty [of e] show False
      by (cases e) (auto simp: startsNoSpace_def list_all_iff)
  qed
  then show ?thesis by (simp add: leadingSpace_def)
qed

lemma TrimRightSpace_startsNoSpace:
  assumes "startsNoSpace c"
  shows "\<exists>t. TrimRightSpace (c # s) = c # t"
proof (induction "length s" arbitrary: s rule: less_induct)
  case less
  show ?case
  proof (cases "trailingSpace (c # s) = 0")
    case True
    then show ?thesis by (subst TrimRightSpace.simps) simp
  next
    case False
    then obtain e where e: "find (\<lambda>e. suffix e (c # s)) spaceRunes = Some e"
      and k: "trailingSpace (c # s) = length e"
      by (auto simp: trailingSpace_def split: option.splits)
    from e have mem: "e \<in> set spaceRunes" and suf: "suffix e (c # s)"
      by (auto dest: find_SomeD)
    from mem have ne: "e \<noteq> []" by (rule spaceRunes_nonempty)
    from mem assms have "hd e \<noteq> c" by (auto simp: startsNoSpace_def list_all_iff)
    with ne have "e \<noteq> c # s" by auto
    with suf have "suffix e s" by (auto simp: suffix_Cons)
    then have le: "length e \<le> length s" by (rule suffix_length_le)
    with ne have eq: "take (length (c # s) - length e) (c # s) = c # take (length s - length e) s"
      by (cases e) (auto simp: take_Cons' )
    from ne le have "length (take (length s - length e) s) < length s"
      by (cases e) auto
    from less [OF this] obtain t where "TrimRightSpace (c # take (length s - length e) s) = c # t"
      by blast
    with False k eq show ?thesis
      by (subst TrimRightSpace.simps) simp
  qed
qed

lemma startsNoSpace_comment: "startsNoSpace (CHR ''-'')" "startsNoSpace (CHR ''/'')"
  by (simp_all add: startsNoSpace_def spaceRunes_def)

lemma normalizeQuery_comment:
  assumes "isASCII query" "list_all asciiSpace ws" "startsNoSpace c" "lowerByte c = c"
    and "query = ws @ c # rest"
  shows "\<exists>t. normalizeQuery U query = c # t"
proof -
  have "ToLower U query = ws @ c # map lowerByte rest"
    using assms by (simp add: ToLower_def list_all_iff asciiSpace_lowerByte map_idI)
  then have "TrimLeftSpace (ToLower U query) = c # map lowerByte rest"
    using assms(2,3)
    by (simp add: TrimLeftSpace_spaces)
       (subst TrimLeftSpace.simps, simp add: leadingSpace_startsNoSpace)
  with TrimRightSpace_startsNoSpace [OF assms(3)] show ?thesis
    by (simp add: normalizeQuery_def TrimSpace_def)
qed

subsection \<open>The loop over the patterns\<close>

lemma dangerousPatterns_compile: "\<forall>p\<in>set dangerousPatterns. compile p \<noteq> None"
  by code_simp




lemma scanPatterns_None:
  "\<forall>p\<in>set ps. compile p \<noteq> None \<Longrightarrow>
     (scanPatterns ps n = None) = (\<forall>p\<in>set ps. MatchString p n = Inr False)"
  by (induction ps) (auto simp: MatchString_def split: sum.splits)

text \<open>
  The examples of the specification: \<open>validate("SELECT * FROM t")\<close> and
  \<open>validate("  with cte as (select 1) select * from cte")\<close> are allowed,
  \<open>validate("DELETE FROM t")\<close> is rejected by the rule for \<open>delete from\<close>, and
  \<open>validate("")\<close> is rejected as not a read query.
\<close>

lemma isSafeQuery_examples:
  "isSafeQuery (\<lambda>s. s) ''SELECT * FROM t'' = None"
  "isSafeQuery (\<lambda>s. s) ''  with cte as (select 1) select * from cte'' = None"
  "isSafeQuery (\<lambda>s. s) ''DELETE FROM t'' =
     Some (ErrorString (''query contains potentially dangerous operation: '' @ dangerousPatterns ! 4))"
  "isSafeQuery (\<lambda>s. s) [] = Some (ErrorString ''only SELECT and CTE (WITH) queries are allowed'')"
  by code_simp+

subsection \<open>The patterns, rule by rule\<close>

lemma prevAfter_simps [simp]:
  "prevAfter p [] = p" "prevAfter p (x # u) = prevAfter (Some x) u"
  "prevAfter p (u @ [x]) = Some x"
  by (simp_all add: prevAfter_def)





















subsection \<open>The denylist\<close>



text \<open>
  Whatever a pattern of the source accepts, the rule in the words of the specification
  accepts too.
\<close>

lemma isSpaceClass_asciiSpace: "isSpaceClass c \<Longrightarrow> asciiSpace c"
  by (auto simp: isSpaceClass_def asciiSpace_def)

lemma isSpaceClass_isWordChar: "isSpaceClass c \<Longrightarrow> \<not> isWordChar c"
  by (auto simp: isSpaceClass_def isWordChar_def)

lemma keywordPair_spec: "keywordPair k1 k2 s \<Longrightarrow> spec_keywordPair k1 k2 s"
proof -
  have "spec_whiteSpace w" if "whiteSpace w" for w
    using that by (auto simp: whiteSpace_def spec_whiteSpace_def list_all_iff isSpaceClass_asciiSpace)
  then show "keywordPair k1 k2 s \<Longrightarrow> spec_keywordPair k1 k2 s"
    unfolding keywordPair_def spec_keywordPair_def by blast
qed

lemma updateLineSet_spec:
  assumes "updateLineSet s"
  shows "spec_updateAnySet s"
proof -
  from assms obtain u w m w' v where s: "s = u @ ''update'' @ w @ m @ w' @ ''set'' @ v"
    and b: "\<not> wordBefore u" "\<not> wordAfter v" and w: "whiteSpace w" "whiteSpace w'"
    unfolding updateLineSet_def by blast
  from w have ne: "w \<noteq> []" "w' \<noteq> []" and "isSpaceClass (hd w)" "isSpaceClass (last w')"
    by (auto simp: whiteSpace_def list_all_iff)
  then have "\<not> isWordChar (hd w)" "\<not> isWordChar (last w')"
    by (simp_all add: isSpaceClass_isWordChar)
  with ne have "w @ m @ w' \<noteq> []" "\<not> wordAfter (w @ m @ w')" "\<not> wordBefore (w @ m @ w')"
    by (simp_all add: wordAfter_def wordBefore_def)
  moreover from s have "s = u @ ''update'' @ (w @ m @ w') @ ''set'' @ v" by simp
  ultimately show ?thesis
    using b unfolding spec_updateAnySet_def by blast
qed


subsection \<open>The prefix check\<close>

lemma HasPrefix_Cons: "HasPrefix (c # t) (d # p) = (c = d \<and> HasPrefix t p)"
  by (auto simp: HasPrefix_def)

text \<open>
  C4. When no pattern of the denylist matches the trimmed, lower-cased query,
  \<open>isSafeQuery\<close> allows the query exactly when that form starts with \<open>select\<close> or with
  \<open>with\<close>, and every other such query is rejected with the error
  \<open>only SELECT and CTE (WITH) queries are allowed\<close>, which no rule of the denylist
  gives. A query of ASCII white space only (the empty one too) is rejected with that
  error. An ASCII query that starts, after white space, with the SQL comment
  \<open>--\<close> or \<open>/*\<close> is never allowed, whatever follows the comment.
\<close>

theorem isSafeQuery_allowlist:
  "((\<forall>p\<in>set dangerousPatterns. MatchString p (normalizeQuery U query) = Inr False) \<longrightarrow>
      (isSafeQuery U query = None) =
        (HasPrefix (normalizeQuery U query) ''select'' \<or> HasPrefix (normalizeQuery U query) ''with'') \<and>
      (isSafeQuery U query \<noteq> None \<longrightarrow>
         isSafeQuery U query = Some (ErrorString ''only SELECT and CTE (WITH) queries are allowed''))) \<and>
   (list_all asciiSpace query \<longrightarrow>
      isSafeQuery U query = Some (ErrorString ''only SELECT and CTE (WITH) queries are allowed'')) \<and>
   (isASCII query \<and> list_all asciiSpace ws \<and>
      (query = ws @ ''--'' @ rest \<or> query = ws @ ''/*'' @ rest) \<longrightarrow>
      isSafeQuery U query \<noteq> None \<and>
      ((\<forall>p\<in>set dangerousPatterns. MatchString p (normalizeQuery U query) = Inr False) \<longrightarrow>
         isSafeQuery U query = Some (ErrorString ''only SELECT and CTE (WITH) queries are allowed''))) \<and>
   (\<forall>pattern. ErrorString ''only SELECT and CTE (WITH) queries are allowed'' \<noteq>
      ErrorString (''query contains potentially dangerous operation: '' @ pattern))"
proof -
  let ?n = "normalizeQuery U query"
  let ?only = "Some (ErrorString ''only SELECT and CTE (WITH) queries are allowed'')"
  let ?clean = "\<forall>p\<in>set dangerousPatterns. MatchString p ?n = Inr False"
  have clean: "scanPatterns dangerousPatterns ?n = None" if ?clean
    using that scanPatterns_None [OF dangerousPatterns_compile, of ?n] by simp
  have A: "(isSafeQuery U query = None) = (HasPrefix ?n ''select'' \<or> HasPrefix ?n ''with'')"
    if ?clean
    using clean [OF that] by (simp add: isSafeQuery_def Let_def)
  have B: "isSafeQuery U query = ?only" if ?clean "isSafeQuery U query \<noteq> None"
    using clean [OF that(1)] that(2) by (simp add: isSafeQuery_def Let_def split: if_splits)
  have C: "isSafeQuery U query = ?only" if "list_all asciiSpace query"
  proof -
    have "?n = []" using that by (rule normalizeQuery_spaces)
    moreover have "scanPatterns dangerousPatterns [] = None" by code_simp
    ultimately show ?thesis by (simp add: isSafeQuery_def Let_def HasPrefix_def)
  qed
  have D: "isSafeQuery U query \<noteq> None"
    if "isASCII query" "list_all asciiSpace ws" "query = ws @ ''--'' @ rest \<or> query = ws @ ''/*'' @ rest"
  proof -
    from that(3) obtain c r where q: "query = ws @ c # r" and c: "c = CHR ''-'' \<or> c = CHR ''/''"
      by auto
    from c have "startsNoSpace c" "lowerByte c = c"
      using startsNoSpace_comment by (auto simp: lowerByte_def)
    from normalizeQuery_comment [OF that(1,2) this q] obtain t where "?n = c # t" by blast
    with c have "\<not> HasPrefix ?n ''select'' \<and> \<not> HasPrefix ?n ''with''"
      by (auto simp: HasPrefix_Cons)
    then show ?thesis
      by (simp add: isSafeQuery_def Let_def split: option.splits)
  qed
  have P1: "?clean \<longrightarrow>
      (isSafeQuery U query = None) = (HasPrefix ?n ''select'' \<or> HasPrefix ?n ''with'') \<and>
      (isSafeQuery U query \<noteq> None \<longrightarrow> isSafeQuery U query = ?only)"
    using A B by blast
  have P2: "list_all asciiSpace query \<longrightarrow> isSafeQuery U query = ?only"
    using C by blast
  have P3: "isASCII query \<and> list_all asciiSpace ws \<and>
      (query = ws @ ''--'' @ rest \<or> query = ws @ ''/*'' @ rest) \<longrightarrow>
      isSafeQuery U query \<noteq> None \<and> (?clean \<longrightarrow> isSafeQuery U query = ?only)"
    using D B by blast
  have P4: "\<forall>pattern. ErrorString ''only SELECT and CTE (WITH) queries are allowed'' \<noteq>
      ErrorString (''query contains potentially dangerous operation: '' @ pattern)"
    by simp
  show ?thesis
    by (rule conjI [OF P1 conjI [OF P2 conjI [OF P3 P4]]])
qed

theorem isSafeQuery_allowlist_witness:
  "isSafeQuery (\<lambda>s. s) ''  With cte as (select 1) select * from cte'' = None \<and>
   isSafeQuery (\<lambda>s. s) ''explain select 1'' =
     Some (ErrorString ''only SELECT and CTE (WITH) queries are allowed'') \<and>
   isSafeQuery (\<lambda>s. s) [CHR '' '', CHR 0x09, CHR 0x0A] =
     Some (ErrorString ''only SELECT and CTE (WITH) queries are allowed'') \<and>
   isSafeQuery (\<lambda>s. s) ('' -- rows'' @ CHR 0x0A # ''SELECT 1'') =
     Some (ErrorString ''only SELECT and CTE (WITH) queries are allowed'')"
proof -
  let ?only = "Some (ErrorString ''only SELECT and CTE (WITH) queries are allowed'')"
  let ?a = "''  With cte as (select 1) select * from cte''"
  let ?b = "''explain select 1''"
  let ?c = "[CHR '' '', CHR 0x09, CHR 0x0A]"
  let ?d = "'' -- rows'' @ CHR 0x0A # ''SELECT 1''"
  have "\<forall>p\<in>set dangerousPatterns. MatchString p (normalizeQuery (\<lambda>s. s) ?a) = Inr False"
    by code_simp
  moreover have "HasPrefix (normalizeQuery (\<lambda>s. s) ?a) ''with''"
    by code_simp
  ultimately have 1: "isSafeQuery (\<lambda>s. s) ?a = None"
    using isSafeQuery_allowlist [of "\<lambda>s. s" ?a "[]" "[]"] by blast
  have "\<forall>p\<in>set dangerousPatterns. MatchString p (normalizeQuery (\<lambda>s. s) ?b) = Inr False"
    by code_simp
  moreover have "\<not> (HasPrefix (normalizeQuery (\<lambda>s. s) ?b) ''select'' \<or>
      HasPrefix (normalizeQuery (\<lambda>s. s) ?b) ''with'')"
    by code_simp
  ultimately have 2: "isSafeQuery (\<lambda>s. s) ?b = ?only"
    using isSafeQuery_allowlist [of "\<lambda>s. s" ?b "[]" "[]"] by blast
  have "list_all asciiSpace ?c"
    by code_simp
  then have 3: "isSafeQuery (\<lambda>s. s) ?c = ?only"
    using isSafeQuery_allowlist [of "\<lambda>s. s" ?c "[]" "[]"] by blast
  have "\<forall>p\<in>set dangerousPatterns. MatchString p (normalizeQuery (\<lambda>s. s) ?d) = Inr False"
    by code_simp
  moreover have "isASCII ?d \<and> list_all asciiSpace '' '' \<and>
      (?d = '' '' @ ''--'' @ ('' rows'' @ CHR 0x0A # ''SELECT 1'') \<or>
       ?d = '' '' @ ''/*'' @ ('' rows'' @ CHR 0x0A # ''SELECT 1''))"
    by code_simp
  ultimately have 4: "isSafeQuery (\<lambda>s. s) ?d = ?only"
    using isSafeQuery_allowlist [of "\<lambda>s. s" ?d "'' ''" "'' rows'' @ CHR 0x0A # ''SELECT 1''"]
    by blast
  show ?thesis
    by (rule conjI [OF 1 conjI [OF 2 conjI [OF 3 4]]])
qed

section \<open>Properties of the tools\<close>

subsection \<open>Rejected queries\<close>

lemma scanPatterns_Some:
  "\<forall>p\<in>set ps. compile p \<noteq> None \<Longrightarrow> scanPatterns ps n = Some e \<Longrightarrow>
     \<exists>p\<in>set ps. MatchString p n = Inr True \<and>
       e = ErrorString (''query contains potentially dangerous operation: '' @ p)"
  by (induction ps) (auto simp: MatchString_def split: sum.splits if_splits)

lemma isSafeQuery_Some:
  assumes "isSafeQuery U query = Some err"
  shows "(\<exists>p\<in>set dangerousPatterns. MatchString p (normalizeQuery U query) = Inr True \<and>
            err = ErrorString (''query contains potentially dangerous operation: '' @ p)) \<or>
         err = ErrorString ''only SELECT and CTE (WITH) queries are allowed''"
proof (cases "scanPatterns dangerousPatterns (normalizeQuery U query)")
  case None
  with assms show ?thesis
    by (simp add: isSafeQuery_def Let_def split: if_splits)
next
  case (Some e)
  with assms have "e = err" by (simp add: isSafeQuery_def Let_def)
  with Some scanPatterns_Some [OF dangerousPatterns_compile] show ?thesis
    by blast
qed

lemma RequireString_Some: "req key = Some (StringArgument s) \<Longrightarrow> RequireString req key = Inr s"
  by (simp add: RequireString_def)

text \<open>
  C2. When \<open>isSafeQuery\<close> rejects the query of a request, \<open>ExecuteQuery\<close> (both in
  \<open>src/main.go\<close> and in the program with three tools) returns the error
  \<open>unsafe query: \<close> followed by the message of \<open>isSafeQuery\<close>, which is the message of
  the denylist with a pattern that matches or the message of the prefix check, and
  the trace of database calls is the one before the request: no statement is sent.
\<close>

theorem ExecuteQuery_rejected:
  assumes "req ''query'' = Some (StringArgument query)"
    and "isSafeQuery U query = Some err"
  shows "ExecuteQuery U db tr req = (Inl (Wrapped ''unsafe query'' err), tr) \<and>
         ExecuteQuery_main U db tr req = (Inl (Wrapped ''unsafe query'' err), tr) \<and>
         Error (Wrapped ''unsafe query'' err) = ''unsafe query: '' @ Error err \<and>
         ((\<exists>p\<in>set dangerousPatterns. MatchString p (normalizeQuery U query) = Inr True \<and>
             Error err = ''query contains potentially dangerous operation: '' @ p) \<or>
          Error err = ''only SELECT and CTE (WITH) queries are allowed'')"
proof -
  have 1: "ExecuteQuery U db tr req = (Inl (Wrapped ''unsafe query'' err), tr)"
    using assms by (simp add: ExecuteQuery_def RequireString_Some)
  have 2: "ExecuteQuery_main U db tr req = (Inl (Wrapped ''unsafe query'' err), tr)"
    using assms by (simp add: ExecuteQuery_main_def RequireString_Some)
  have 3: "Error (Wrapped ''unsafe query'' err) = ''unsafe query: '' @ Error err"
    by simp
  have 4: "(\<exists>p\<in>set dangerousPatterns. MatchString p (normalizeQuery U query) = Inr True \<and>
             Error err = ''query contains potentially dangerous operation: '' @ p) \<or>
          Error err = ''only SELECT and CTE (WITH) queries are allowed''"
    using isSafeQuery_Some [OF assms(2)] by auto
  show ?thesis
    by (rule conjI [OF 1 conjI [OF 2 conjI [OF 3 4]]])
qed

theorem ExecuteQuery_rejected_witness:
  "ExecuteQuery (\<lambda>s. s) exampleDB [] [''query'' \<mapsto> StringArgument ''DELETE FROM users''] =
     (Inl (Wrapped ''unsafe query''
        (ErrorString (''query contains potentially dangerous operation: '' @ dangerousPatterns ! 4))), []) \<and>
   ExecuteQuery_main (\<lambda>s. s) exampleDB [] [''query'' \<mapsto> StringArgument ''DELETE FROM users''] =
     (Inl (Wrapped ''unsafe query''
        (ErrorString (''query contains potentially dangerous operation: '' @ dangerousPatterns ! 4))), [])"
proof -
  let ?req = "[''query'' \<mapsto> StringArgument ''DELETE FROM users'']"
  let ?err = "ErrorString (''query contains potentially dangerous operation: '' @ dangerousPatterns ! 4)"
  have 1: "?req ''query'' = Some (StringArgument ''DELETE FROM users'')"
    by simp
  have 2: "isSafeQuery (\<lambda>s. s) ''DELETE FROM users'' = Some ?err"
    by code_simp
  from ExecuteQuery_rejected [of ?req "''DELETE FROM users''" "\<lambda>s. s" ?err exampleDB "[]"] 1 2
  show ?thesis by blast
qed

subsection \<open>The calls of an accepted query\<close>

lemma catalogCall_simps [simp]:
  "catalogCall (listTablesSQL, args)" "catalogCall (describeSQL 12, args)"
  by (simp_all add: catalogCall_def)

lemma describeAll_trace:
  "\<exists>tr'. snd (describeAll db tr tables schemaInfo) = tr @ tr' \<and> list_all catalogCall tr'"
proof (induction tables arbitrary: tr schemaInfo)
  case Nil
  then show ?case by simp
next
  case (Cons table tables)
  let ?tr = "tr @ [(describeSQL 12, [table])]"
  show ?case
  proof (cases "answerColumns db tr table")
    case (Inl err)
    then show ?thesis by (simp add: QueryContext_columns_def)
  next
    case (Inr colRows)
    show ?thesis
    proof (cases "scanColumns colRows NilSlice")
      case (Inl err)
      with Inr show ?thesis by (simp add: QueryContext_columns_def)
    next
      case cols: (Inr cols)
      from Cons.IH [of ?tr "AList.update table cols schemaInfo"]
      obtain tr' where "snd (describeAll db ?tr tables (AList.update table cols schemaInfo)) = ?tr @ tr'"
        "list_all catalogCall tr'" by blast
      with Inr cols show ?thesis
        by (simp add: QueryContext_columns_def)
    qed
  qed
qed

lemma getSchemaInfo_trace:
  "\<exists>tr'. snd (getSchemaInfo db tr) = tr @ (listTablesSQL, []) # tr' \<and> list_all catalogCall tr'"
proof (cases "answerTables db tr")
  case (Inl err)
  then show ?thesis by (simp add: getSchemaInfo_def QueryContext_tables_def)
next
  case (Inr tableRows)
  show ?thesis
  proof (cases "scanTables tableRows NilSlice")
    case (Inl err)
    with Inr show ?thesis by (simp add: getSchemaInfo_def QueryContext_tables_def)
  next
    case tables: (Inr tables)
    from describeAll_trace [of db "tr @ [(listTablesSQL, [])]" "elems tables" "[]"]
    obtain tr' where "snd (describeAll db (tr @ [(listTablesSQL, [])]) (elems tables) []) =
        (tr @ [(listTablesSQL, [])]) @ tr'" "list_all catalogCall tr'"
      by blast
    with Inr tables show ?thesis
      by (simp add: getSchemaInfo_def QueryContext_tables_def)
  qed
qed

lemma ExecuteQuery_trace:
  assumes "req ''query'' = Some (StringArgument query)" and "isSafeQuery U query = None"
  shows "\<exists>tr'. snd (ExecuteQuery U db tr req) = tr @ (query, []) # tr' \<and> list_all catalogCall tr'"
proof (cases "answer db tr query")
  case (Inl err)
  show ?thesis
  proof (cases "Contains (Error err) ''column'' \<or> Contains (Error err) ''table''")
    case True
    from getSchemaInfo_trace [of db "tr @ [(query, [])]"]
    obtain tr' where tr': "snd (getSchemaInfo db (tr @ [(query, [])])) =
        (tr @ [(query, [])]) @ (listTablesSQL, []) # tr'" "list_all catalogCall tr'"
      by blast
    then have "list_all catalogCall ((listTablesSQL, []) # tr')"
      by simp
    with tr'(1) Inl True assms show ?thesis
      by (cases "getSchemaInfo db (tr @ [(query, [])])")
         (auto simp: ExecuteQuery_def RequireString_Some QueryContext_def split: sum.splits)
  next
    case False
    with Inl assms show ?thesis
      by (simp add: ExecuteQuery_def RequireString_Some QueryContext_def)
  qed
next
  case (Inr rows)
  with assms show ?thesis
    by (simp add: ExecuteQuery_def RequireString_Some QueryContext_def split: sum.splits)
qed

lemma ExecuteQuery_main_trace:
  assumes "req ''query'' = Some (StringArgument query)" and "isSafeQuery U query = None"
  shows "snd (ExecuteQuery_main U db tr req) = tr @ [(query, [])]"
  using assms
  by (simp add: ExecuteQuery_main_def RequireString_Some QueryContext_def split: sum.splits)

text \<open>
  C5. When \<open>isSafeQuery\<close> accepts the query of a request, the first call that
  \<open>ExecuteQuery\<close> adds to the trace sends the string of the request itself with no
  bound argument, and any further call sends a fixed statement of \<open>getSchemaInfo\<close>;
  \<open>ExecuteQuery\<close> of \<open>src/main.go\<close> sends that one call only. The trimmed, lower-cased
  copy is used by \<open>isSafeQuery\<close> alone.
\<close>

theorem ExecuteQuery_original_text:
  assumes "req ''query'' = Some (StringArgument query)" and "isSafeQuery U query = None"
  shows "(\<exists>tr'. snd (ExecuteQuery U db tr req) = tr @ (query, []) # tr' \<and> list_all catalogCall tr') \<and>
         snd (ExecuteQuery_main U db tr req) = tr @ [(query, [])]"
  using assms ExecuteQuery_trace [of req query U db tr] ExecuteQuery_main_trace [of req query U db tr]
  by blast

theorem ExecuteQuery_original_text_witness:
  "(\<exists>tr'. snd (ExecuteQuery (\<lambda>s. s) exampleDB []
               [''query'' \<mapsto> StringArgument ''SELECT id, avatar FROM users'']) =
            (''SELECT id, avatar FROM users'', []) # tr' \<and> list_all catalogCall tr') \<and>
   snd (ExecuteQuery_main (\<lambda>s. s) exampleDB []
          [''query'' \<mapsto> StringArgument ''SELECT id, avatar FROM users'']) =
     [(''SELECT id, avatar FROM users'', [])] \<and>
   normalizeQuery (\<lambda>s. s) ''SELECT id, avatar FROM users'' = ''select id, avatar from users''"
proof -
  let ?q = "''SELECT id, avatar FROM users''"
  let ?req = "[''query'' \<mapsto> StringArgument ?q]"
  have 1: "?req ''query'' = Some (StringArgument ?q)"
    by simp
  have 2: "isSafeQuery (\<lambda>s. s) ?q = None"
    by code_simp
  have 3: "normalizeQuery (\<lambda>s. s) ?q = ''select id, avatar from users''"
    by code_simp
  from ExecuteQuery_original_text [of ?req ?q "\<lambda>s. s" exampleDB "[]"] 1 2 3
  show ?thesis by simp
qed

subsection \<open>Execution errors\<close>

lemma Marshal_members_total:
  "\<forall>v. \<exists>j. f v = Inr j \<Longrightarrow> \<exists>js. Marshal_members f kvs = Inr js"
proof (induction kvs)
  case Nil
  then show ?case by simp
next
  case (Cons kv kvs)
  obtain k v where kv: "kv = (k, v)" by (cases kv)
  from Cons.prems obtain j where "f v = Inr j" by blast
  moreover from Cons obtain js where "Marshal_members f kvs = Inr js" by blast
  ultimately show ?case using kv by simp
qed

lemma Marshal_list_total:
  "\<forall>v. \<exists>j. f v = Inr j \<Longrightarrow> \<exists>js. Marshal_list f xs = Inr js"
proof (induction xs)
  case Nil
  then show ?case by simp
next
  case (Cons x xs)
  from Cons.prems obtain j where "f x = Inr j" by blast
  moreover from Cons obtain js where "Marshal_list f xs = Inr js" by blast
  ultimately show ?case by simp
qed

lemma Marshal_map_total: "\<forall>v. \<exists>j. f v = Inr j \<Longrightarrow> \<exists>j. Marshal_map f m = Inr j"
  using Marshal_members_total [of f "sort_key fst m"] by (auto simp: Marshal_map_def)

lemma Marshal_slice_total: "\<forall>v. \<exists>j. f v = Inr j \<Longrightarrow> \<exists>j. Marshal_slice f s = Inr j"
  using Marshal_list_total [of f "elems s"] by (cases s) (auto simp: Marshal_slice_def)

lemma Marshal_schema_total: "\<exists>j. Marshal_schema schemaInfo = Inr j"
proof -
  have "\<forall>v. \<exists>j. Marshal_string v = Inr j" by (simp add: Marshal_string_def)
  then have "\<forall>v. \<exists>j. Marshal_map Marshal_string v = Inr j" by (blast intro: Marshal_map_total)
  then have "\<forall>v. \<exists>j. Marshal_slice (Marshal_map Marshal_string) v = Inr j"
    by (blast intro: Marshal_slice_total)
  then show ?thesis unfolding Marshal_schema_def by (rule Marshal_map_total)
qed

text \<open>
  C3 (amended). Let the database answer the call of \<open>QueryContext\<close> that sends an
  accepted query with the error \<open>err\<close>. If the message of \<open>err\<close> contains \<open>column\<close> or
  \<open>table\<close>, \<open>ExecuteQuery\<close> runs \<open>getSchemaInfo\<close> after the failed call (the statement
  over \<open>information_schema.tables\<close> is the next call of the trace): when that succeeds,
  the result is the error text \<open>Query failed: \<close>, the message, and the marshalled
  schema; when it returns the error \<open>schemaErr\<close>, the result is the error text with
  both messages. If the message contains neither word, the result is the error text
  \<open>Query failed: \<close> with the message only, and no further call is made. When the
  database answers the call with a cursor, whether or not an error ends the reading
  of its rows, the only call of the request is the query itself: no statement of
  \<open>getSchemaInfo\<close> is sent.
\<close>

theorem ExecuteQuery_execution_error:
  assumes "req ''query'' = Some (StringArgument query)" and "isSafeQuery U query = None"
  shows
   "(answer db tr query = Inl err \<and>
       (Contains (Error err) ''column'' \<or> Contains (Error err) ''table'') \<and>
       getSchemaInfo db (tr @ [(query, [])]) = (Inr schemaInfo, tr') \<longrightarrow>
       (\<exists>j tr''. Marshal_schema schemaInfo = Inr j \<and>
          ExecuteQuery U db tr req =
            (Inr (ToolResultError
               [Str (''Query failed: '' @ Error err @ [CHR 0x0A, CHR 0x0A] @
                     ''Here is the schema:'' @ [CHR 0x0A]), Doc j]), tr') \<and>
          tr' = tr @ (query, []) # (listTablesSQL, []) # tr'')) \<and>
    (answer db tr query = Inl err \<and>
       (Contains (Error err) ''column'' \<or> Contains (Error err) ''table'') \<and>
       getSchemaInfo db (tr @ [(query, [])]) = (Inl schemaErr, tr') \<longrightarrow>
       ExecuteQuery U db tr req =
         (Inr (ToolResultError
            [Str (''Query failed: '' @ Error err @ ''. Also failed to fetch schema: '' @
                  Error schemaErr)]), tr')) \<and>
    (answer db tr query = Inl err \<and>
       \<not> Contains (Error err) ''column'' \<and> \<not> Contains (Error err) ''table'' \<longrightarrow>
       ExecuteQuery U db tr req =
         (Inr (ToolResultError [Str (''Query failed: '' @ Error err)]), tr @ [(query, [])])) \<and>
    (answer db tr query = Inr rows \<longrightarrow>
       snd (ExecuteQuery U db tr req) = tr @ [(query, [])])"
proof -
  have A: "\<exists>j tr''. Marshal_schema schemaInfo = Inr j \<and>
          ExecuteQuery U db tr req =
            (Inr (ToolResultError
               [Str (''Query failed: '' @ Error err @ [CHR 0x0A, CHR 0x0A] @
                     ''Here is the schema:'' @ [CHR 0x0A]), Doc j]), tr') \<and>
          tr' = tr @ (query, []) # (listTablesSQL, []) # tr''"
    if "answer db tr query = Inl err \<and>
       (Contains (Error err) ''column'' \<or> Contains (Error err) ''table'') \<and>
       getSchemaInfo db (tr @ [(query, [])]) = (Inr schemaInfo, tr')"
  proof -
    from Marshal_schema_total obtain j where j: "Marshal_schema schemaInfo = Inr j" ..
    from getSchemaInfo_trace [of db "tr @ [(query, [])]"] that
    obtain tr'' where t: "tr' = tr @ (query, []) # (listTablesSQL, []) # tr''" by auto
    have "ExecuteQuery U db tr req =
            (Inr (ToolResultError
               [Str (''Query failed: '' @ Error err @ [CHR 0x0A, CHR 0x0A] @
                     ''Here is the schema:'' @ [CHR 0x0A]), Doc j]), tr')"
      using assms that j
      by (simp add: ExecuteQuery_def RequireString_Some QueryContext_def ignoringError_def)
    with j t show ?thesis by blast
  qed
  have B: "ExecuteQuery U db tr req =
         (Inr (ToolResultError
            [Str (''Query failed: '' @ Error err @ ''. Also failed to fetch schema: '' @
                  Error schemaErr)]), tr')"
    if "answer db tr query = Inl err \<and>
       (Contains (Error err) ''column'' \<or> Contains (Error err) ''table'') \<and>
       getSchemaInfo db (tr @ [(query, [])]) = (Inl schemaErr, tr')"
    using assms that
    by (simp add: ExecuteQuery_def RequireString_Some QueryContext_def)
  have C: "ExecuteQuery U db tr req =
         (Inr (ToolResultError [Str (''Query failed: '' @ Error err)]), tr @ [(query, [])])"
    if "answer db tr query = Inl err \<and>
       \<not> Contains (Error err) ''column'' \<and> \<not> Contains (Error err) ''table''"
    using assms that
    by (simp add: ExecuteQuery_def RequireString_Some QueryContext_def)
  have D: "snd (ExecuteQuery U db tr req) = tr @ [(query, [])]"
    if "answer db tr query = Inr rows"
    using assms that
    by (simp add: ExecuteQuery_def RequireString_Some QueryContext_def split: sum.splits)
  show ?thesis
    using A B C D by blast
qed

theorem ExecuteQuery_execution_error_witness:
  "ExecuteQuery (\<lambda>s. s) exampleDB [] [''query'' \<mapsto> StringArgument ''SELECT nam FROM users''] =
     (Inr (ToolResultError
        [Str (''Query failed: pq: column does not exist'' @ [CHR 0x0A, CHR 0x0A] @
              ''Here is the schema:'' @ [CHR 0x0A]),
         Doc (JObject [(''users'', JArray (map columnObject (publicColumns exampleCatalog ''users'')))])]),
      [(''SELECT nam FROM users'', []), (listTablesSQL, []), (describeSQL 12, [''users''])]) \<and>
   ExecuteQuery (\<lambda>s. s) brokenDB [] [''query'' \<mapsto> StringArgument ''SELECT nam FROM users''] =
     (Inr (ToolResultError
        [Str (''Query failed: pq: column does not exist. Also failed to fetch schema: '' @
              ''failed to list tables: driver: bad connection'')]),
      [(''SELECT nam FROM users'', []), (listTablesSQL, [])]) \<and>
   ExecuteQuery (\<lambda>s. s) exampleDB [] [''query'' \<mapsto> StringArgument ''SELECT 1/0''] =
     (Inr (ToolResultError [Str ''Query failed: pq: division by zero'']), [(''SELECT 1/0'', [])]) \<and>
   snd (ExecuteQuery (\<lambda>s. s) exampleDB [] [''query'' \<mapsto> StringArgument ''SELECT id, avatar FROM users'']) =
     [(''SELECT id, avatar FROM users'', [])]"
proof -
  let ?U = "\<lambda>s::string. s"
  let ?nam = "''SELECT nam FROM users''"
  let ?err = "ErrorString ''pq: column does not exist''"
  let ?schema = "[(''users'', Slice (map columnMap (publicColumns exampleCatalog ''users'')))]"
  let ?tr = "[(?nam, []), (listTablesSQL, []), (describeSQL 12, [''users''])]"
  have safe: "isSafeQuery ?U ?nam = None" "isSafeQuery ?U ''SELECT 1/0'' = None"
    "isSafeQuery ?U ''SELECT id, avatar FROM users'' = None"
    by code_simp+
  have word: "Contains (Error ?err) ''column'' \<or> Contains (Error ?err) ''table''"
    by code_simp
  have a1: "answer exampleDB [] ?nam = Inl ?err"
    by code_simp
  have a2: "getSchemaInfo exampleDB ([] @ [(?nam, [])]) = (Inr ?schema, ?tr)"
    by code_simp
  have a3: "Marshal_schema ?schema =
      Inr (JObject [(''users'', JArray (map columnObject (publicColumns exampleCatalog ''users'')))])"
    by code_simp
  from ExecuteQuery_execution_error [where req = "[''query'' \<mapsto> StringArgument ?nam]"
      and query = ?nam and U = ?U and db = exampleDB and tr = "[]" and err = ?err
      and schemaInfo = ?schema and tr' = ?tr] safe(1) a1 word a2
  obtain j where "Marshal_schema ?schema = Inr j"
    "ExecuteQuery ?U exampleDB [] [''query'' \<mapsto> StringArgument ?nam] =
       (Inr (ToolResultError
          [Str (''Query failed: '' @ Error ?err @ [CHR 0x0A, CHR 0x0A] @
                ''Here is the schema:'' @ [CHR 0x0A]), Doc j]), ?tr)"
    by auto
  with a3 have 1: "ExecuteQuery ?U exampleDB [] [''query'' \<mapsto> StringArgument ?nam] =
     (Inr (ToolResultError
        [Str (''Query failed: pq: column does not exist'' @ [CHR 0x0A, CHR 0x0A] @
              ''Here is the schema:'' @ [CHR 0x0A]),
         Doc (JObject [(''users'', JArray (map columnObject (publicColumns exampleCatalog ''users'')))])]),
      ?tr)"
    by simp
  let ?serr = "Wrapped ''failed to list tables'' (ErrorString ''driver: bad connection'')"
  have b1: "answer brokenDB [] ?nam = Inl ?err"
    by code_simp
  have b2: "getSchemaInfo brokenDB ([] @ [(?nam, [])]) = (Inl ?serr, [(?nam, []), (listTablesSQL, [])])"
    by code_simp
  from ExecuteQuery_execution_error [where req = "[''query'' \<mapsto> StringArgument ?nam]"
      and query = ?nam and U = ?U and db = brokenDB and tr = "[]" and err = ?err
      and schemaErr = ?serr and tr' = "[(?nam, []), (listTablesSQL, [])]"] safe(1) b1 word b2
  have 2: "ExecuteQuery ?U brokenDB [] [''query'' \<mapsto> StringArgument ?nam] =
     (Inr (ToolResultError
        [Str (''Query failed: pq: column does not exist. Also failed to fetch schema: '' @
              ''failed to list tables: driver: bad connection'')]),
      [(?nam, []), (listTablesSQL, [])])"
    by simp
  let ?zero = "ErrorString ''pq: division by zero''"
  have c1: "answer exampleDB [] ''SELECT 1/0'' = Inl ?zero"
    by code_simp
  have c2: "\<not> Contains (Error ?zero) ''column'' \<and> \<not> Contains (Error ?zero) ''table''"
    by code_simp
  from ExecuteQuery_execution_error [where req = "[''query'' \<mapsto> StringArgument ''SELECT 1/0'']"
      and query = "''SELECT 1/0''" and U = ?U and db = exampleDB and tr = "[]" and err = ?zero]
    safe(2) c1 c2
  have 3: "ExecuteQuery ?U exampleDB [] [''query'' \<mapsto> StringArgument ''SELECT 1/0''] =
     (Inr (ToolResultError [Str ''Query failed: pq: division by zero'']), [(''SELECT 1/0'', [])])"
    by simp
  let ?ok = "''SELECT id, avatar FROM users''"
  let ?rows = "\<lparr>columnNames = Inr (Slice [''id'', ''avatar'']),
                remaining = [[Int64 1, Bytes ''png''], [Int64 2, Nil]], lasterr = None\<rparr>"
  have d1: "answer exampleDB [] ?ok = Inr ?rows"
    by code_simp
  from ExecuteQuery_execution_error [where req = "[''query'' \<mapsto> StringArgument ?ok]"
      and query = ?ok and U = ?U and db = exampleDB and tr = "[]" and rows = ?rows]
    safe(3) d1
  have 4: "snd (ExecuteQuery ?U exampleDB [] [''query'' \<mapsto> StringArgument ?ok]) = [(?ok, [])]"
    by simp
  show ?thesis
    by (rule conjI [OF 1 conjI [OF 2 conjI [OF 3 4]]])
qed

text \<open>
  The claim as it stands, for every execution error of the database, fails for an error
  that the database raises while the rows are read. \<open>seriesQuery\<close> is accepted, the
  database delivers one row and then fails with \<open>division by zero\<close>; the loop over the
  rows ends, and \<open>ExecuteQuery\<close> returns the one row as the result of the query, with
  no error and without the message.
\<close>

theorem ExecuteQuery_execution_error_counterexample:
  "isSafeQuery (\<lambda>s. s) seriesQuery = None \<and>
   answer exampleDB [] seriesQuery =
     Inr \<lparr>columnNames = Inr (Slice [''q'']), remaining = [[Int64 10]],
          lasterr = Some (ErrorString ''pq: division by zero'')\<rparr> \<and>
   ExecuteQuery (\<lambda>s. s) exampleDB [] [''query'' \<mapsto> StringArgument seriesQuery] =
     (Inr (ToolResultText
        [Doc (JObject [(''columns'', JArray [JString ''q'']),
                       (''rows'', JArray [JObject [(''q'', JInt 10)]]),
                       (''count'', JInt 1)])]),
      [(seriesQuery, [])])"
  by code_simp

subsection \<open>The row map\<close>

lemma set_update_cases:
  "(a, b) \<in> set (AList.update k v al) \<Longrightarrow> (a, b) = (k, v) \<or> (a, b) \<in> set al"
  by (induction al) (auto split: if_splits)

lemma convert_not_Bytes: "convert v \<noteq> Bytes b"
  by (cases v) simp_all

lemma convert_other: "\<forall>b. v \<noteq> Bytes b \<Longrightarrow> convert v = v"
  by (cases v) simp_all

lemma fillRowMap_other:
  "k \<notin> set columns \<Longrightarrow> map_of (fillRowMap columns values m) k = map_of m k"
  by (induction columns "values" m rule: fillRowMap.induct) (simp_all add: update_conv')

lemma fillRowMap_last:
  "length columns = length values \<Longrightarrow> i < length columns \<Longrightarrow>
   (\<forall>j<length columns. i < j \<longrightarrow> columns ! j \<noteq> columns ! i) \<Longrightarrow>
   map_of (fillRowMap columns values m) (columns ! i) = Some (convert (values ! i))"
proof (induction columns "values" m arbitrary: i rule: fillRowMap.induct)
  case (1 colName columns val "values" rowMap)
  show ?case
  proof (cases i)
    case 0
    have "colName \<notin> set columns"
    proof
      assume "colName \<in> set columns"
      then obtain j where "j < length columns" "columns ! j = colName"
        by (auto simp: in_set_conv_nth)
      with "1.prems"(3) 0 show False by (auto dest: spec [of _ "Suc j"])
    qed
    with 0 show ?thesis by (simp add: fillRowMap_other update_conv')
  next
    case (Suc i')
    with "1.prems" have "\<forall>j<length columns. i' < j \<longrightarrow> columns ! j \<noteq> columns ! i'"
      by (auto dest: spec [of _ "Suc j" for j])
    with "1.IH" [of i'] "1.prems" Suc show ?thesis by simp
  qed
qed simp_all

lemma fillRowMap_entries:
  "(c, v) \<in> set (fillRowMap columns values m) \<Longrightarrow>
     (c, v) \<in> set m \<or> (\<exists>i<length columns. i < length values \<and> c = columns ! i \<and> v = convert (values ! i))"
proof (induction columns "values" m rule: fillRowMap.induct)
  case (1 colName columns val "values" rowMap)
  from "1.prems" have "(c, v) \<in> set (fillRowMap columns values (AList.update colName (convert val) rowMap))"
    by simp
  from "1.IH" [OF this]
  consider "(c, v) \<in> set (AList.update colName (convert val) rowMap)"
    | i where "i < length columns" "i < length values" "c = columns ! i" "v = convert (values ! i)"
    by blast
  then show ?case
  proof cases
    case 1
    then have "(c, v) = (colName, convert val) \<or> (c, v) \<in> set rowMap"
      by (rule set_update_cases)
    then show ?thesis by auto
  next
    case 2
    then have "Suc i < length (colName # columns) \<and> Suc i < length (val # values) \<and>
        c = (colName # columns) ! Suc i \<and> v = convert ((val # values) ! Suc i)"
      by simp
    then show ?thesis by blast
  qed
qed simp_all

lemma fillRowMap_keys:
  "length columns = length values \<Longrightarrow>
     fst ` set (fillRowMap columns values m) = fst ` set m \<union> set columns"
  by (induction columns "values" m rule: fillRowMap.induct) (auto simp: dom_update)

lemma fillRowMap_distinct:
  "distinct (map fst m) \<Longrightarrow> distinct (map fst (fillRowMap columns values m))"
  by (induction columns "values" m rule: fillRowMap.induct) (simp_all add: distinct_update)

lemma scanRows_all:
  "\<forall>row\<in>set rows. length row = length columns \<Longrightarrow>
     scanRows columns rows (Slice acc) =
       Inr (Slice (acc @ map (\<lambda>values. fillRowMap columns values []) rows))"
  by (induction rows arbitrary: acc) (simp_all add: Scan_def)

lemma ExecuteQuery_success:
  assumes "req ''query'' = Some (StringArgument query)" and "isSafeQuery U query = None"
    and "answer db tr query = Inr rows" and "columnNames rows = Inr columns"
    and "\<forall>row\<in>set (remaining rows). length row = len columns"
  shows "ExecuteQuery U db tr req =
     (Inr (ToolResultText (ignoringError (Marshal_QueryResult
        \<lparr>Columns = columns,
         Rows = Slice (map (\<lambda>values. fillRowMap (elems columns) values []) (remaining rows)),
         Count = length (remaining rows)\<rparr>))),
      tr @ [(query, [])])"
  using assms scanRows_all [of "remaining rows" "elems columns" "[]"]
  by (simp add: ExecuteQuery_def RequireString_Some QueryContext_def len_def)

lemma last_occurrence:
  "i < length xs \<Longrightarrow>
     \<exists>l<length xs. i \<le> l \<and> xs ! l = xs ! i \<and> (\<forall>j<length xs. l < j \<longrightarrow> xs ! j \<noteq> xs ! i)"
proof (induction "length xs - i" arbitrary: i rule: less_induct)
  case less
  show ?case
  proof (cases "\<exists>j<length xs. i < j \<and> xs ! j = xs ! i")
    case True
    then obtain j where j: "j < length xs" "i < j" "xs ! j = xs ! i" by blast
    then have "length xs - j < length xs - i" by simp
    from less.hyps [OF this j(1)] obtain l where
      "l < length xs" "j \<le> l" "xs ! l = xs ! j" "\<forall>j'<length xs. l < j' \<longrightarrow> xs ! j' \<noteq> xs ! j"
      by blast
    with j have "l < length xs \<and> i \<le> l \<and> xs ! l = xs ! i \<and>
        (\<forall>j<length xs. l < j \<longrightarrow> xs ! j \<noteq> xs ! i)"
      by simp
    then show ?thesis by blast
  next
    case False
    with less.prems have "i < length xs \<and> i \<le> i \<and> xs ! i = xs ! i \<and>
        (\<forall>j<length xs. i < j \<longrightarrow> xs ! j \<noteq> xs ! i)"
      by blast
    then show ?thesis by blast
  qed
qed

text \<open>
  The row map of one row: under every column name stands the converted value of the
  last column of that name, and there is no other entry.
\<close>

lemma fillRowMap_row:
  assumes "length columns = length values"
  shows "\<forall>i<length columns.
           \<exists>l<length columns. i \<le> l \<and> columns ! l = columns ! i \<and>
             (\<forall>j<length columns. l < j \<longrightarrow> columns ! j \<noteq> columns ! i) \<and>
             map_of (fillRowMap columns values []) (columns ! i) = Some (convert (values ! l))"
    and "\<forall>(c, v)\<in>set (fillRowMap columns values []).
           (\<forall>b. v \<noteq> Bytes b) \<and>
           (\<exists>l<length columns. c = columns ! l \<and>
              (\<forall>j<length columns. l < j \<longrightarrow> columns ! j \<noteq> c) \<and> v = convert (values ! l))"
proof -
  let ?m = "fillRowMap columns values []"
  have A: "\<exists>l<length columns. i \<le> l \<and> columns ! l = columns ! i \<and>
             (\<forall>j<length columns. l < j \<longrightarrow> columns ! j \<noteq> columns ! i) \<and>
             map_of ?m (columns ! i) = Some (convert (values ! l))"
    if i: "i < length columns" for i
  proof -
    from last_occurrence [OF i] obtain l where l: "l < length columns" "i \<le> l"
      "columns ! l = columns ! i" "\<forall>j<length columns. l < j \<longrightarrow> columns ! j \<noteq> columns ! i"
      by blast
    from l(3,4) have "\<forall>j<length columns. l < j \<longrightarrow> columns ! j \<noteq> columns ! l" by simp
    from fillRowMap_last [OF assms l(1) this, of "[]"] l(3)
    have "map_of ?m (columns ! i) = Some (convert (values ! l))" by simp
    with l show ?thesis by blast
  qed
  then show "\<forall>i<length columns.
           \<exists>l<length columns. i \<le> l \<and> columns ! l = columns ! i \<and>
             (\<forall>j<length columns. l < j \<longrightarrow> columns ! j \<noteq> columns ! i) \<and>
             map_of ?m (columns ! i) = Some (convert (values ! l))"
    by blast
  have d: "distinct (map fst ?m)" by (rule fillRowMap_distinct) simp
  show "\<forall>(c, v)\<in>set ?m.
           (\<forall>b. v \<noteq> Bytes b) \<and>
           (\<exists>l<length columns. c = columns ! l \<and>
              (\<forall>j<length columns. l < j \<longrightarrow> columns ! j \<noteq> c) \<and> v = convert (values ! l))"
  proof
    fix x
    assume x: "x \<in> set ?m"
    obtain c v where cv: "x = (c, v)" by (cases x)
    with x have mem: "(c, v) \<in> set ?m" by simp
    with d have mo: "map_of ?m c = Some v" by simp
    from fillRowMap_entries [OF mem] obtain i where i: "i < length columns" "c = columns ! i"
      by auto
    from A [OF i(1)] i(2) obtain l where l: "l < length columns" "columns ! l = c"
      "\<forall>j<length columns. l < j \<longrightarrow> columns ! j \<noteq> c" "map_of ?m c = Some (convert (values ! l))"
      by auto
    from mo l(4) have "v = convert (values ! l)" by simp
    with l have "(\<forall>b. v \<noteq> Bytes b) \<and>
           (\<exists>l<length columns. c = columns ! l \<and>
              (\<forall>j<length columns. l < j \<longrightarrow> columns ! j \<noteq> c) \<and> v = convert (values ! l))"
      by (auto simp: convert_not_Bytes)
    with cv show "case x of (c, v) \<Rightarrow> (\<forall>b. v \<noteq> Bytes b) \<and>
           (\<exists>l<length columns. c = columns ! l \<and>
              (\<forall>j<length columns. l < j \<longrightarrow> columns ! j \<noteq> c) \<and> v = convert (values ! l))"
      by simp
  qed
qed

subsection \<open>The JSON document of a result\<close>

lemma Marshal_members_keys:
  "Marshal_members f kvs = Inr js \<Longrightarrow> map fst js = map fst kvs"
  by (induction kvs arbitrary: js) (auto split: sum.splits)

lemma Marshal_members_map_of:
  "Marshal_members f kvs = Inr js \<Longrightarrow> map_of kvs c = Some v \<Longrightarrow>
     \<exists>jv. map_of js c = Some jv \<and> f v = Inr jv"
  by (induction kvs arbitrary: js) (auto split: sum.splits if_splits)

lemma map_of_sort_key:
  assumes "distinct (map fst m)"
  shows "distinct (map fst (sort_key fst m))" and "map_of (sort_key fst m) = map_of m"
proof -
  from assms have "distinct m" and "inj_on fst (set m)" by (simp_all add: distinct_map)
  then show d: "distinct (map fst (sort_key fst m))" by (simp add: distinct_map)
  from d assms show "map_of (sort_key fst m) = map_of m"
    by (simp add: map_of_inject_set)
qed

lemma Marshal_map_Inr:
  assumes "Marshal_map f m = Inr j" and "distinct (map fst m)"
  shows "\<exists>ms. j = JObject ms \<and> sorted (map fst ms) \<and> distinct (map fst ms) \<and>
           set (map fst ms) = set (map fst m) \<and>
           (\<forall>c v. map_of m c = Some v \<longrightarrow> (\<exists>jv. map_of ms c = Some jv \<and> f v = Inr jv))"
proof -
  from assms(1) obtain ms where ms: "Marshal_members f (sort_key fst m) = Inr ms" "j = JObject ms"
    by (auto simp: Marshal_map_def split: sum.splits)
  from Marshal_members_keys [OF ms(1)] have k: "map fst ms = map fst (sort_key fst m)" .
  have 1: "sorted (map fst ms)" unfolding k by (rule sorted_sort_key)
  have 2: "distinct (map fst ms)" unfolding k by (rule map_of_sort_key(1) [OF assms(2)])
  have 3: "set (map fst ms) = set (map fst m)" unfolding k by simp
  have 4: "\<forall>c v. map_of m c = Some v \<longrightarrow> (\<exists>jv. map_of ms c = Some jv \<and> f v = Inr jv)"
    using Marshal_members_map_of [OF ms(1)] map_of_sort_key(2) [OF assms(2)] by simp
  from ms(2) 1 2 3 4 show ?thesis by blast
qed

lemma Marshal_list_Inr:
  "Marshal_list f xs = Inr js \<Longrightarrow> length js = length xs \<and> (\<forall>k<length xs. f (xs ! k) = Inr (js ! k))"
proof (induction xs arbitrary: js)
  case Nil
  then show ?case by simp
next
  case (Cons x xs)
  from Cons.prems obtain j js' where j: "f x = Inr j" "Marshal_list f xs = Inr js'" "js = j # js'"
    by (auto split: sum.splits)
  from Cons.IH [OF j(2)] j(1,3) show ?case
    by (auto simp: nth_Cons split: nat.splits)
qed

lemma Marshal_strings: "Marshal_list Marshal_string cs = Inr (map JString cs)"
  by (induction cs) (simp_all add: Marshal_string_def)

lemma Marshal_QueryResult_Inr:
  assumes "Marshal_QueryResult \<lparr>Columns = columns, Rows = Slice results, Count = n\<rparr> = Inr j"
  shows "\<exists>rs. j = JObject [(''columns'', (case columns of NilSlice \<Rightarrow> JNull
                                             | Slice cs \<Rightarrow> JArray (map JString cs))),
                             (''rows'', JArray rs), (''count'', JInt (int n))] \<and>
              Marshal_list (Marshal_map Marshal_value) results = Inr rs"
  using assms
  by (cases columns)
     (auto simp: Marshal_QueryResult_def Marshal_slice_def Marshal_strings split: sum.splits)

text \<open>What \<open>json.Marshal\<close> writes for the values that it accepts.\<close>

lemma Marshal_value_Inr:
  assumes "Marshal_value v = Inr jv"
  shows "(v = Nil \<longrightarrow> jv = JNull) \<and> (\<forall>n. v = Int64 n \<longrightarrow> jv = JInt n) \<and>
         (\<forall>m e. v = Float64 (Finite m e) \<longrightarrow> jv = JFloat m e) \<and>
         (\<forall>b. v = Bool b \<longrightarrow> jv = JBool b) \<and> (\<forall>s. v = String s \<longrightarrow> jv = JString s) \<and>
         (\<forall>s. v = Time (RFC3339 s) \<longrightarrow> jv = JString s)"
  using assms by auto

text \<open>
  \<open>json.Marshal\<close> refuses a float that is not a number or not finite, and a time with no
  RFC 3339 text.
\<close>

lemma Marshal_value_accepts:
  "(\<exists>j. Marshal_value v = Inr j) =
     (v \<noteq> Float64 NaN \<and> v \<noteq> Float64 PosInf \<and> v \<noteq> Float64 NegInf \<and> v \<noteq> Time NoRFC3339)"
proof (cases v)
  case (Float64 f)
  then show ?thesis by (cases f) simp_all
next
  case (Time tm)
  then show ?thesis by (cases tm) simp_all
qed simp_all

lemma Marshal_members_accepts:
  "(\<exists>js. Marshal_members f kvs = Inr js) = (\<forall>kv\<in>set kvs. \<exists>j. f (snd kv) = Inr j)"
  by (induction kvs) (auto split: sum.splits)

lemma Marshal_map_accepts:
  "(\<exists>j. Marshal_map f m = Inr j) = (\<forall>kv\<in>set m. \<exists>j. f (snd kv) = Inr j)"
proof -
  have "(\<exists>j. Marshal_map f m = Inr j) = (\<exists>js. Marshal_members f (sort_key fst m) = Inr js)"
    by (auto simp: Marshal_map_def split: sum.splits)
  then show ?thesis by (simp add: Marshal_members_accepts)
qed

lemma Marshal_list_accepts:
  "(\<exists>js. Marshal_list f xs = Inr js) = (\<forall>x\<in>set xs. \<exists>j. f x = Inr j)"
  by (induction xs) (auto split: sum.splits)

lemma Marshal_QueryResult_accepts:
  "(\<exists>j. Marshal_QueryResult \<lparr>Columns = columns, Rows = Slice results, Count = n\<rparr> = Inr j) =
     (\<forall>k<length results. \<forall>(c, v)\<in>set (results ! k).
        v \<noteq> Float64 NaN \<and> v \<noteq> Float64 PosInf \<and> v \<noteq> Float64 NegInf \<and> v \<noteq> Time NoRFC3339)"
proof -
  have "(\<exists>j. Marshal_QueryResult \<lparr>Columns = columns, Rows = Slice results, Count = n\<rparr> = Inr j) =
      (\<exists>rs. Marshal_list (Marshal_map Marshal_value) results = Inr rs)"
    by (cases columns)
       (auto simp: Marshal_QueryResult_def Marshal_slice_def Marshal_strings split: sum.splits)
  also have "\<dots> = (\<forall>rowMap\<in>set results. \<forall>kv\<in>set rowMap. \<exists>j. Marshal_value (snd kv) = Inr j)"
    by (simp add: Marshal_list_accepts Marshal_map_accepts)
  also have "\<dots> = (\<forall>k<length results. \<forall>(c, v)\<in>set (results ! k).
        v \<noteq> Float64 NaN \<and> v \<noteq> Float64 PosInf \<and> v \<noteq> Float64 NegInf \<and> v \<noteq> Time NoRFC3339)"
    by (simp add: Marshal_value_accepts all_set_conv_all_nth case_prod_beta)
  finally show ?thesis .
qed

lemma rows_written:
  assumes "Marshal_list (Marshal_map Marshal_value) results = Inr rs"
    and "\<forall>rowMap\<in>set results. distinct (map fst rowMap)"
  shows "length rs = length results \<and>
     (\<forall>k<length results. \<exists>ms. rs ! k = JObject ms \<and>
        sorted (map fst ms) \<and> distinct (map fst ms) \<and>
        set (map fst ms) = set (map fst (results ! k)) \<and>
        (\<forall>c. (map_of (results ! k) c = Some Nil \<longrightarrow> map_of ms c = Some JNull) \<and>
             (\<forall>n. map_of (results ! k) c = Some (Int64 n) \<longrightarrow> map_of ms c = Some (JInt n)) \<and>
             (\<forall>m e. map_of (results ! k) c = Some (Float64 (Finite m e)) \<longrightarrow>
                    map_of ms c = Some (JFloat m e)) \<and>
             (\<forall>b. map_of (results ! k) c = Some (Bool b) \<longrightarrow> map_of ms c = Some (JBool b)) \<and>
             (\<forall>s. map_of (results ! k) c = Some (String s) \<longrightarrow> map_of ms c = Some (JString s)) \<and>
             (\<forall>s. map_of (results ! k) c = Some (Time (RFC3339 s)) \<longrightarrow>
                  map_of ms c = Some (JString s))))"
proof (intro conjI allI impI)
  from Marshal_list_Inr [OF assms(1)] have L: "length rs = length results"
    and N: "\<forall>k<length results. Marshal_map Marshal_value (results ! k) = Inr (rs ! k)"
    by simp_all
  show "length rs = length results" by (rule L)
  fix k
  assume k: "k < length results"
  with assms(2) have d: "distinct (map fst (results ! k))" by simp
  from N k have "Marshal_map Marshal_value (results ! k) = Inr (rs ! k)" by simp
  from Marshal_map_Inr [OF this d] obtain ms where ms: "rs ! k = JObject ms"
    "sorted (map fst ms)" "distinct (map fst ms)" "set (map fst ms) = set (map fst (results ! k))"
    and V: "\<And>c v. map_of (results ! k) c = Some v \<Longrightarrow>
              \<exists>jv. map_of ms c = Some jv \<and> Marshal_value v = Inr jv"
    by blast
  have "\<forall>c. (map_of (results ! k) c = Some Nil \<longrightarrow> map_of ms c = Some JNull) \<and>
             (\<forall>n. map_of (results ! k) c = Some (Int64 n) \<longrightarrow> map_of ms c = Some (JInt n)) \<and>
             (\<forall>m e. map_of (results ! k) c = Some (Float64 (Finite m e)) \<longrightarrow>
                    map_of ms c = Some (JFloat m e)) \<and>
             (\<forall>b. map_of (results ! k) c = Some (Bool b) \<longrightarrow> map_of ms c = Some (JBool b)) \<and>
             (\<forall>s. map_of (results ! k) c = Some (String s) \<longrightarrow> map_of ms c = Some (JString s)) \<and>
             (\<forall>s. map_of (results ! k) c = Some (Time (RFC3339 s)) \<longrightarrow>
                  map_of ms c = Some (JString s))"
  proof (intro allI conjI impI)
    fix c
    show "map_of ms c = Some JNull" if "map_of (results ! k) c = Some Nil"
      using V [OF that] by auto
    show "map_of ms c = Some (JInt n)" if "map_of (results ! k) c = Some (Int64 n)" for n
      using V [OF that] by auto
    show "map_of ms c = Some (JFloat m e)" if "map_of (results ! k) c = Some (Float64 (Finite m e))" for m e
      using V [OF that] by auto
    show "map_of ms c = Some (JBool b)" if "map_of (results ! k) c = Some (Bool b)" for b
      using V [OF that] by auto
    show "map_of ms c = Some (JString s)" if "map_of (results ! k) c = Some (String s)" for s
      using V [OF that] by auto
    show "map_of ms c = Some (JString s)" if "map_of (results ! k) c = Some (Time (RFC3339 s))" for s
      using V [OF that] by auto
  qed
  with ms show "\<exists>ms. rs ! k = JObject ms \<and>
        sorted (map fst ms) \<and> distinct (map fst ms) \<and>
        set (map fst ms) = set (map fst (results ! k)) \<and>
        (\<forall>c. (map_of (results ! k) c = Some Nil \<longrightarrow> map_of ms c = Some JNull) \<and>
             (\<forall>n. map_of (results ! k) c = Some (Int64 n) \<longrightarrow> map_of ms c = Some (JInt n)) \<and>
             (\<forall>m e. map_of (results ! k) c = Some (Float64 (Finite m e)) \<longrightarrow>
                    map_of ms c = Some (JFloat m e)) \<and>
             (\<forall>b. map_of (results ! k) c = Some (Bool b) \<longrightarrow> map_of ms c = Some (JBool b)) \<and>
             (\<forall>s. map_of (results ! k) c = Some (String s) \<longrightarrow> map_of ms c = Some (JString s)) \<and>
             (\<forall>s. map_of (results ! k) c = Some (Time (RFC3339 s)) \<longrightarrow>
                  map_of ms c = Some (JString s)))"
    by blast
qed

lemma scanRows_Inr:
  "scanRows columns rows acc = Inr results \<Longrightarrow> \<forall>row\<in>set rows. length row = length columns"
  by (induction rows arbitrary: acc) (auto simp: Scan_def split: if_splits)

lemma RequireString_Inr: "RequireString req key = Inr s \<Longrightarrow> req key = Some (StringArgument s)"
  by (auto simp: RequireString_def split: option.splits argument.splits)

text \<open>
  A result that is a text comes from one path of \<open>ExecuteQuery\<close>: the query was accepted,
  the database answered with a cursor, \<open>rows.Columns()\<close> succeeded and every row was
  scanned.
\<close>

lemma ExecuteQuery_text:
  assumes "ExecuteQuery U db tr req = (Inr (ToolResultText t), tr')"
  shows "\<exists>query rows columns.
     req ''query'' = Some (StringArgument query) \<and> isSafeQuery U query = None \<and>
     answer db tr query = Inr rows \<and> columnNames rows = Inr columns \<and>
     (\<forall>row\<in>set (remaining rows). length row = len columns)"
proof (cases "RequireString req ''query''")
  case (Inl err)
  with assms show ?thesis by (simp add: ExecuteQuery_def)
next
  case (Inr query)
  then have q: "req ''query'' = Some (StringArgument query)" by (rule RequireString_Inr)
  show ?thesis
  proof (cases "isSafeQuery U query")
    case (Some err)
    with assms Inr show ?thesis by (simp add: ExecuteQuery_def)
  next
    case None
    show ?thesis
    proof (cases "answer db tr query")
      case (Inl err)
      with assms Inr None show ?thesis
        by (auto simp: ExecuteQuery_def QueryContext_def split: if_splits prod.splits sum.splits)
    next
      case rows: (Inr rows)
      show ?thesis
      proof (cases "columnNames rows")
        case (Inl err)
        with assms Inr None rows show ?thesis
          by (simp add: ExecuteQuery_def QueryContext_def)
      next
        case columns: (Inr columns)
        show ?thesis
        proof (cases "scanRows (elems columns) (remaining rows) (Slice [])")
          case (Inl err)
          with assms Inr None rows columns show ?thesis
            by (simp add: ExecuteQuery_def QueryContext_def)
        next
          case results: (Inr results)
          from scanRows_Inr [OF this] q None rows columns show ?thesis
            by (auto simp: len_def)
        qed
      qed
    qed
  qed
qed

lemma ExecuteQuery_text_rows:
  assumes "ExecuteQuery U db tr req = (Inr (ToolResultText t), tr')"
  shows "\<exists>query rows columns.
     req ''query'' = Some (StringArgument query) \<and>
     answer db tr query = Inr rows \<and> columnNames rows = Inr columns \<and>
     (\<forall>row\<in>set (remaining rows). length (elems columns) = length row) \<and>
     t = ignoringError (Marshal_QueryResult
           \<lparr>Columns = columns,
            Rows = Slice (map (\<lambda>values. fillRowMap (elems columns) values []) (remaining rows)),
            Count = length (map (\<lambda>values. fillRowMap (elems columns) values []) (remaining rows))\<rparr>)"
proof -
  from ExecuteQuery_text [OF assms] obtain query rows columns where
    h: "req ''query'' = Some (StringArgument query)" "isSafeQuery U query = None"
      "answer db tr query = Inr rows" "columnNames rows = Inr columns"
      "\<forall>row\<in>set (remaining rows). length row = len columns"
    by blast
  from ExecuteQuery_success [where req = req and query = query and U = U and db = db
      and tr = tr and rows = rows and columns = columns] h assms
  have "t = ignoringError (Marshal_QueryResult
           \<lparr>Columns = columns,
            Rows = Slice (map (\<lambda>values. fillRowMap (elems columns) values []) (remaining rows)),
            Count = length (map (\<lambda>values. fillRowMap (elems columns) values []) (remaining rows))\<rparr>)"
    by simp
  moreover from h(5) have "\<forall>row\<in>set (remaining rows). length (elems columns) = length row"
    by (simp add: len_def)
  ultimately show ?thesis using h(1,3,4) by blast
qed

text \<open>
  C6 (amended). Let \<open>ExecuteQuery\<close> return a text, with no error. Then the text is the
  marshalled \<open>QueryResult\<close> of the columns of the cursor, with one row map per row that
  the cursor delivered, and \<open>Count\<close> is the number of those rows. In the row map of row
  \<open>k\<close>, under the name of every column stands the converted value of the last column
  that has this name, and every entry is such a value: the value of a column whose name
  a later column repeats is not in the row map. No entry is a \<open>[]byte\<close>: the conversion
  turns a \<open>[]byte\<close> into the string of the same bytes and leaves every other value as it
  is. \<open>json.Marshal\<close> accepts the response exactly when no entry of a row map is a float
  that is not a number or not finite, or a time with no RFC 3339 text. When it accepts
  the response, the text is the one document with the members \<open>columns\<close> (\<open>null\<close> for a
  \<open>nil\<close> slice of columns, the array of the names otherwise), \<open>rows\<close> and \<open>count\<close> (the
  number of rows); the array \<open>rows\<close> has one object per row map, with one member per
  entry, sorted by key, that is \<open>null\<close> for \<open>nil\<close>, the number for an integer or a finite
  float, the boolean, and the string for a string (so for the bytes of a \<open>[]byte\<close>) and
  for a time.
\<close>

theorem ExecuteQuery_result:
  assumes "ExecuteQuery U db tr req = (Inr (ToolResultText t), tr')"
  shows "\<exists>query rows columns results.
     req ''query'' = Some (StringArgument query) \<and>
     answer db tr query = Inr rows \<and> columnNames rows = Inr columns \<and>
     t = ignoringError (Marshal_QueryResult
           \<lparr>Columns = columns, Rows = Slice results, Count = length results\<rparr>) \<and>
     length results = length (remaining rows) \<and>
     (\<forall>k<length results. \<forall>i<len columns.
        \<exists>l<len columns. i \<le> l \<and> elems columns ! l = elems columns ! i \<and>
          (\<forall>j<len columns. l < j \<longrightarrow> elems columns ! j \<noteq> elems columns ! i) \<and>
          map_of (results ! k) (elems columns ! i) = Some (convert (remaining rows ! k ! l))) \<and>
     (\<forall>k<length results. \<forall>(c, v)\<in>set (results ! k).
        (\<forall>b. v \<noteq> Bytes b) \<and>
        (\<exists>l<len columns. c = elems columns ! l \<and>
           (\<forall>j<len columns. l < j \<longrightarrow> elems columns ! j \<noteq> c) \<and>
           v = convert (remaining rows ! k ! l))) \<and>
     (\<forall>b. convert (Bytes b) = String b) \<and>
     (\<forall>v. (\<forall>b. v \<noteq> Bytes b) \<longrightarrow> convert v = v) \<and>
     ((\<exists>j. Marshal_QueryResult \<lparr>Columns = columns, Rows = Slice results, Count = length results\<rparr> = Inr j) =
        (\<forall>k<length results. \<forall>(c, v)\<in>set (results ! k).
           v \<noteq> Float64 NaN \<and> v \<noteq> Float64 PosInf \<and> v \<noteq> Float64 NegInf \<and> v \<noteq> Time NoRFC3339)) \<and>
     (\<forall>j. Marshal_QueryResult \<lparr>Columns = columns, Rows = Slice results, Count = length results\<rparr> = Inr j \<longrightarrow>
        t = [Doc j] \<and>
        (\<exists>rs. j = JObject [(''columns'', (case columns of NilSlice \<Rightarrow> JNull
                                              | Slice cs \<Rightarrow> JArray (map JString cs))),
                            (''rows'', JArray rs),
                            (''count'', JInt (int (length (remaining rows))))] \<and>
           length rs = length results \<and>
           (\<forall>k<length results. \<exists>ms. rs ! k = JObject ms \<and>
              sorted (map fst ms) \<and> distinct (map fst ms) \<and>
              set (map fst ms) = set (map fst (results ! k)) \<and>
              (\<forall>c. (map_of (results ! k) c = Some Nil \<longrightarrow> map_of ms c = Some JNull) \<and>
                   (\<forall>n. map_of (results ! k) c = Some (Int64 n) \<longrightarrow> map_of ms c = Some (JInt n)) \<and>
                   (\<forall>m e. map_of (results ! k) c = Some (Float64 (Finite m e)) \<longrightarrow>
                          map_of ms c = Some (JFloat m e)) \<and>
                   (\<forall>b. map_of (results ! k) c = Some (Bool b) \<longrightarrow> map_of ms c = Some (JBool b)) \<and>
                   (\<forall>s. map_of (results ! k) c = Some (String s) \<longrightarrow> map_of ms c = Some (JString s)) \<and>
                   (\<forall>s. map_of (results ! k) c = Some (Time (RFC3339 s)) \<longrightarrow>
                        map_of ms c = Some (JString s))))))"
proof -
  from ExecuteQuery_text_rows [OF assms] obtain query rows columns where
    h: "req ''query'' = Some (StringArgument query)"
      "answer db tr query = Inr rows" "columnNames rows = Inr columns"
      "\<forall>row\<in>set (remaining rows). length (elems columns) = length row"
    and t: "t = ignoringError (Marshal_QueryResult
           \<lparr>Columns = columns,
            Rows = Slice (map (\<lambda>values. fillRowMap (elems columns) values []) (remaining rows)),
            Count = length (map (\<lambda>values. fillRowMap (elems columns) values []) (remaining rows))\<rparr>)"
    by blast
  let ?results = "map (\<lambda>values. fillRowMap (elems columns) values []) (remaining rows)"
  have len: "length ?results = length (remaining rows)" by simp
  have row: "length (elems columns) = length (remaining rows ! k)" if "k < length ?results" for k
    using that h(4) by simp
  have A: "\<forall>k<length ?results. \<forall>i<len columns.
        \<exists>l<len columns. i \<le> l \<and> elems columns ! l = elems columns ! i \<and>
          (\<forall>j<len columns. l < j \<longrightarrow> elems columns ! j \<noteq> elems columns ! i) \<and>
          map_of (?results ! k) (elems columns ! i) = Some (convert (remaining rows ! k ! l))"
  proof (intro allI impI)
    fix k i
    assume k: "k < length ?results" and i: "i < len columns"
    from fillRowMap_row(1) [OF row [OF k]] i k
    show "\<exists>l<len columns. i \<le> l \<and> elems columns ! l = elems columns ! i \<and>
          (\<forall>j<len columns. l < j \<longrightarrow> elems columns ! j \<noteq> elems columns ! i) \<and>
          map_of (?results ! k) (elems columns ! i) = Some (convert (remaining rows ! k ! l))"
      by (simp add: len_def)
  qed
  have B: "\<forall>k<length ?results. \<forall>(c, v)\<in>set (?results ! k).
        (\<forall>b. v \<noteq> Bytes b) \<and>
        (\<exists>l<len columns. c = elems columns ! l \<and>
           (\<forall>j<len columns. l < j \<longrightarrow> elems columns ! j \<noteq> c) \<and>
           v = convert (remaining rows ! k ! l))"
  proof (intro allI impI)
    fix k
    assume k: "k < length ?results"
    from fillRowMap_row(2) [OF row [OF k]] k
    show "\<forall>(c, v)\<in>set (?results ! k).
        (\<forall>b. v \<noteq> Bytes b) \<and>
        (\<exists>l<len columns. c = elems columns ! l \<and>
           (\<forall>j<len columns. l < j \<longrightarrow> elems columns ! j \<noteq> c) \<and>
           v = convert (remaining rows ! k ! l))"
      by (simp add: len_def)
  qed
  have C: "\<forall>b. convert (Bytes b) = String b" by simp
  have D: "\<forall>v. (\<forall>b. v \<noteq> Bytes b) \<longrightarrow> convert v = v" by (simp add: convert_other)
  have dist: "\<forall>rowMap\<in>set ?results. distinct (map fst rowMap)"
    by (auto intro: fillRowMap_distinct)
  have F: "(\<exists>j. Marshal_QueryResult \<lparr>Columns = columns, Rows = Slice ?results, Count = length ?results\<rparr> = Inr j) =
        (\<forall>k<length ?results. \<forall>(c, v)\<in>set (?results ! k).
           v \<noteq> Float64 NaN \<and> v \<noteq> Float64 PosInf \<and> v \<noteq> Float64 NegInf \<and> v \<noteq> Time NoRFC3339)"
    by (rule Marshal_QueryResult_accepts)
  have E: "\<forall>j. Marshal_QueryResult \<lparr>Columns = columns, Rows = Slice ?results, Count = length ?results\<rparr> = Inr j \<longrightarrow>
        t = [Doc j] \<and>
        (\<exists>rs. j = JObject [(''columns'', (case columns of NilSlice \<Rightarrow> JNull
                                              | Slice cs \<Rightarrow> JArray (map JString cs))),
                            (''rows'', JArray rs),
                            (''count'', JInt (int (length (remaining rows))))] \<and>
           length rs = length ?results \<and>
           (\<forall>k<length ?results. \<exists>ms. rs ! k = JObject ms \<and>
              sorted (map fst ms) \<and> distinct (map fst ms) \<and>
              set (map fst ms) = set (map fst (?results ! k)) \<and>
              (\<forall>c. (map_of (?results ! k) c = Some Nil \<longrightarrow> map_of ms c = Some JNull) \<and>
                   (\<forall>n. map_of (?results ! k) c = Some (Int64 n) \<longrightarrow> map_of ms c = Some (JInt n)) \<and>
                   (\<forall>m e. map_of (?results ! k) c = Some (Float64 (Finite m e)) \<longrightarrow>
                          map_of ms c = Some (JFloat m e)) \<and>
                   (\<forall>b. map_of (?results ! k) c = Some (Bool b) \<longrightarrow> map_of ms c = Some (JBool b)) \<and>
                   (\<forall>s. map_of (?results ! k) c = Some (String s) \<longrightarrow> map_of ms c = Some (JString s)) \<and>
                   (\<forall>s. map_of (?results ! k) c = Some (Time (RFC3339 s)) \<longrightarrow>
                        map_of ms c = Some (JString s)))))"
  proof (intro allI impI)
    fix j
    assume j: "Marshal_QueryResult \<lparr>Columns = columns, Rows = Slice ?results, Count = length ?results\<rparr> = Inr j"
    with t have tj: "t = [Doc j]" by (simp add: ignoringError_def)
    from Marshal_QueryResult_Inr [OF j] obtain rs where
      rs: "j = JObject [(''columns'', (case columns of NilSlice \<Rightarrow> JNull
                                              | Slice cs \<Rightarrow> JArray (map JString cs))),
                            (''rows'', JArray rs),
                            (''count'', JInt (int (length ?results)))]"
      and m: "Marshal_list (Marshal_map Marshal_value) ?results = Inr rs"
      by blast
    from rs have rs': "j = JObject [(''columns'', (case columns of NilSlice \<Rightarrow> JNull
                                              | Slice cs \<Rightarrow> JArray (map JString cs))),
                            (''rows'', JArray rs),
                            (''count'', JInt (int (length (remaining rows))))]"
      by simp
    from tj rs' rows_written [OF m dist]
    show "t = [Doc j] \<and>
        (\<exists>rs. j = JObject [(''columns'', (case columns of NilSlice \<Rightarrow> JNull
                                              | Slice cs \<Rightarrow> JArray (map JString cs))),
                            (''rows'', JArray rs),
                            (''count'', JInt (int (length (remaining rows))))] \<and>
           length rs = length ?results \<and>
           (\<forall>k<length ?results. \<exists>ms. rs ! k = JObject ms \<and>
              sorted (map fst ms) \<and> distinct (map fst ms) \<and>
              set (map fst ms) = set (map fst (?results ! k)) \<and>
              (\<forall>c. (map_of (?results ! k) c = Some Nil \<longrightarrow> map_of ms c = Some JNull) \<and>
                   (\<forall>n. map_of (?results ! k) c = Some (Int64 n) \<longrightarrow> map_of ms c = Some (JInt n)) \<and>
                   (\<forall>m e. map_of (?results ! k) c = Some (Float64 (Finite m e)) \<longrightarrow>
                          map_of ms c = Some (JFloat m e)) \<and>
                   (\<forall>b. map_of (?results ! k) c = Some (Bool b) \<longrightarrow> map_of ms c = Some (JBool b)) \<and>
                   (\<forall>s. map_of (?results ! k) c = Some (String s) \<longrightarrow> map_of ms c = Some (JString s)) \<and>
                   (\<forall>s. map_of (?results ! k) c = Some (Time (RFC3339 s)) \<longrightarrow>
                        map_of ms c = Some (JString s)))))"
      by blast
  qed
  show ?thesis
    by (rule exI [of _ query], rule exI [of _ rows], rule exI [of _ columns],
        rule exI [of _ ?results])
       (rule conjI [OF h(1) conjI [OF h(2) conjI [OF h(3) conjI [OF t conjI [OF len
          conjI [OF A conjI [OF B conjI [OF C conjI [OF D conjI [OF F E]]]]]]]]]])
qed

theorem ExecuteQuery_result_witness:
  "(\<exists>results.
     ExecuteQuery (\<lambda>s. s) exampleDB [] [''query'' \<mapsto> StringArgument ''SELECT id, avatar FROM users''] =
       (Inr (ToolResultText (ignoringError (Marshal_QueryResult
          \<lparr>Columns = Slice [''id'', ''avatar''], Rows = Slice results, Count = 2\<rparr>))),
        [(''SELECT id, avatar FROM users'', [])]) \<and>
     length results = 2 \<and>
     map_of (results ! 0) ''id'' = Some (Int64 1) \<and>
     map_of (results ! 0) ''avatar'' = Some (String ''png'') \<and>
     map_of (results ! 1) ''avatar'' = Some Nil) \<and>
   ExecuteQuery (\<lambda>s. s) exampleDB [] [''query'' \<mapsto> StringArgument ''SELECT id, avatar FROM users''] =
     (Inr (ToolResultText [Doc (JObject
        [(''columns'', JArray [JString ''id'', JString ''avatar'']),
         (''rows'', JArray [JObject [(''avatar'', JString ''png''), (''id'', JInt 1)],
                            JObject [(''avatar'', JNull), (''id'', JInt 2)]]),
         (''count'', JInt 2)])]),
      [(''SELECT id, avatar FROM users'', [])]) \<and>
   ExecuteQuery (\<lambda>s. s) exampleDB [] [''query'' \<mapsto> StringArgument ''SELECT id INTO t2 FROM users''] =
     (Inr (ToolResultText [Doc (JObject
        [(''columns'', JNull), (''rows'', JArray []), (''count'', JInt 0)])]),
      [(''SELECT id INTO t2 FROM users'', [])])"
proof -
  let ?U = "\<lambda>s::string. s"
  let ?q = "''SELECT id, avatar FROM users''"
  let ?req = "[''query'' \<mapsto> StringArgument ?q]"
  let ?rows = "\<lparr>columnNames = Inr (Slice [''id'', ''avatar'']),
                remaining = [[Int64 1, Bytes ''png''], [Int64 2, Nil]], lasterr = None\<rparr>"
  let ?t = "[Doc (JObject
     [(''columns'', JArray [JString ''id'', JString ''avatar'']),
      (''rows'', JArray [JObject [(''avatar'', JString ''png''), (''id'', JInt 1)],
                         JObject [(''avatar'', JNull), (''id'', JInt 2)]]),
      (''count'', JInt 2)])]"
  have E: "ExecuteQuery ?U exampleDB [] ?req = (Inr (ToolResultText ?t), [(?q, [])])"
    by code_simp
  have N: "ExecuteQuery ?U exampleDB [] [''query'' \<mapsto> StringArgument ''SELECT id INTO t2 FROM users''] =
     (Inr (ToolResultText [Doc (JObject
        [(''columns'', JNull), (''rows'', JArray []), (''count'', JInt 0)])]),
      [(''SELECT id INTO t2 FROM users'', [])])"
    by code_simp
  have a: "answer exampleDB [] ?q = Inr ?rows" by code_simp
  from ExecuteQuery_result [OF E] obtain query rows columns results where R:
    "?req ''query'' = Some (StringArgument query)"
    "answer exampleDB [] query = Inr rows" "columnNames rows = Inr columns"
    "?t = ignoringError (Marshal_QueryResult
           \<lparr>Columns = columns, Rows = Slice results, Count = length results\<rparr>)"
    "length results = length (remaining rows)"
    "\<forall>k<length results. \<forall>i<len columns.
        \<exists>l<len columns. i \<le> l \<and> elems columns ! l = elems columns ! i \<and>
          (\<forall>j<len columns. l < j \<longrightarrow> elems columns ! j \<noteq> elems columns ! i) \<and>
          map_of (results ! k) (elems columns ! i) = Some (convert (remaining rows ! k ! l))"
    by (elim exE conjE) (rule that; assumption)
  from R(1) have q: "query = ?q" by simp
  with R(2) a have rows: "rows = ?rows" by simp
  with R(3) have columns: "columns = Slice [''id'', ''avatar'']" by simp
  from R(5) rows have len: "length results = 2" by simp
  note V = R(6) [unfolded columns rows len_def, rule_format]
  have two: "l = 0 \<or> l = 1" if "l < 2" for l :: nat
    using that by auto
  from V [of 0 0] len have "\<exists>l. l < 2 \<and> [''id'', ''avatar''] ! l = ''id'' \<and>
      map_of (results ! 0) ''id'' = Some (convert ([Int64 1, Bytes ''png''] ! l))"
    by (auto simp: numeral_2_eq_2)
  then obtain l where "l < 2" "[''id'', ''avatar''] ! l = ''id''"
    "map_of (results ! 0) ''id'' = Some (convert ([Int64 1, Bytes ''png''] ! l))"
    by blast
  with two [of l] have x: "map_of (results ! 0) ''id'' = Some (Int64 1)" by auto
  from V [of 0 1] len have "\<exists>l. l < 2 \<and> 1 \<le> l \<and>
      map_of (results ! 0) ''avatar'' = Some (convert ([Int64 1, Bytes ''png''] ! l))"
    by (auto simp: numeral_2_eq_2)
  then obtain l where "l < 2" "1 \<le> l"
    "map_of (results ! 0) ''avatar'' = Some (convert ([Int64 1, Bytes ''png''] ! l))"
    by blast
  with two [of l] have y: "map_of (results ! 0) ''avatar'' = Some (String ''png'')" by auto
  from V [of 1 1] len have "\<exists>l. l < 2 \<and> 1 \<le> l \<and>
      map_of (results ! 1) ''avatar'' = Some (convert ([Int64 2, Nil] ! l))"
    by (auto simp: numeral_2_eq_2)
  then obtain l where "l < 2" "1 \<le> l"
    "map_of (results ! 1) ''avatar'' = Some (convert ([Int64 2, Nil] ! l))"
    by blast
  with two [of l] have z: "map_of (results ! 1) ''avatar'' = Some Nil" by auto
  from E R(4) columns len have "ExecuteQuery ?U exampleDB [] ?req =
       (Inr (ToolResultText (ignoringError (Marshal_QueryResult
          \<lparr>Columns = Slice [''id'', ''avatar''], Rows = Slice results, Count = 2\<rparr>))), [(?q, [])])"
    by simp
  with len x y z have "\<exists>results.
     ExecuteQuery ?U exampleDB [] ?req =
       (Inr (ToolResultText (ignoringError (Marshal_QueryResult
          \<lparr>Columns = Slice [''id'', ''avatar''], Rows = Slice results, Count = 2\<rparr>))),
        [(?q, [])]) \<and>
     length results = 2 \<and>
     map_of (results ! 0) ''id'' = Some (Int64 1) \<and>
     map_of (results ! 0) ''avatar'' = Some (String ''png'') \<and>
     map_of (results ! 1) ''avatar'' = Some Nil"
    by blast
  then show ?thesis
    by (rule conjI [OF _ conjI [OF E N]])
qed

text \<open>
  The claim as it stands fails for a query that declares a column name twice: in the
  rows of \<open>SELECT avatar AS a, id AS a FROM users\<close> the first column is a \<open>[]byte\<close> in one
  row and \<open>NULL\<close> in the other, and neither value is in the row map, as a text or as it
  is: the only entry holds the value of the second column.
\<close>

theorem ExecuteQuery_result_counterexample:
  "answer exampleDB [] ''SELECT avatar AS a, id AS a FROM users'' =
     Inr \<lparr>columnNames = Inr (Slice [''a'', ''a'']),
          remaining = [[Bytes ''png'', Int64 1], [Nil, Int64 2]], lasterr = None\<rparr> \<and>
   ExecuteQuery (\<lambda>s. s) exampleDB []
       [''query'' \<mapsto> StringArgument ''SELECT avatar AS a, id AS a FROM users''] =
     (Inr (ToolResultText
        [Doc (JObject [(''columns'', JArray [JString ''a'', JString ''a'']),
                       (''rows'', JArray [JObject [(''a'', JInt 1)], JObject [(''a'', JInt 2)]]),
                       (''count'', JInt 2)])]),
      [(''SELECT avatar AS a, id AS a FROM users'', [])]) \<and>
   scanRows [''a'', ''a''] [[Bytes ''png'', Int64 1], [Nil, Int64 2]] (Slice []) =
     Inr (Slice [[(''a'', Int64 1)], [(''a'', Int64 2)]]) \<and>
   String ''png'' \<notin> snd ` set [(''a'', Int64 1)] \<and>
   Nil \<notin> snd ` set [(''a'', Int64 2)]"
  by code_simp

text \<open>
  C7 (amended). Let \<open>ExecuteQuery\<close> return a text, with no error. Then every row map of
  the marshalled \<open>QueryResult\<close> has exactly one entry for each distinct column name:
  its keys are the column names of the cursor, without repetition, so it has as many
  entries as there are distinct column names, and it has as many entries as columns
  exactly when no column name occurs twice.
\<close>

theorem ExecuteQuery_row_keys:
  assumes "ExecuteQuery U db tr req = (Inr (ToolResultText t), tr')"
  shows "\<exists>query rows columns results.
     req ''query'' = Some (StringArgument query) \<and>
     answer db tr query = Inr rows \<and> columnNames rows = Inr columns \<and>
     t = ignoringError (Marshal_QueryResult
           \<lparr>Columns = columns, Rows = Slice results, Count = length results\<rparr>) \<and>
     length results = length (remaining rows) \<and>
     (\<forall>rowMap\<in>set results.
        distinct (map fst rowMap) \<and> set (map fst rowMap) = set (elems columns) \<and>
        length rowMap = card (set (elems columns)) \<and>
        (length rowMap = len columns) = distinct (elems columns))"
proof -
  from ExecuteQuery_text_rows [OF assms] obtain query rows columns where
    h: "req ''query'' = Some (StringArgument query)"
      "answer db tr query = Inr rows" "columnNames rows = Inr columns"
      "\<forall>row\<in>set (remaining rows). length (elems columns) = length row"
    and t: "t = ignoringError (Marshal_QueryResult
           \<lparr>Columns = columns,
            Rows = Slice (map (\<lambda>values. fillRowMap (elems columns) values []) (remaining rows)),
            Count = length (map (\<lambda>values. fillRowMap (elems columns) values []) (remaining rows))\<rparr>)"
    by blast
  let ?results = "map (\<lambda>values. fillRowMap (elems columns) values []) (remaining rows)"
  have len: "length ?results = length (remaining rows)" by simp
  have K: "\<forall>rowMap\<in>set ?results.
        distinct (map fst rowMap) \<and> set (map fst rowMap) = set (elems columns) \<and>
        length rowMap = card (set (elems columns)) \<and>
        (length rowMap = len columns) = distinct (elems columns)"
  proof
    fix rowMap
    assume "rowMap \<in> set ?results"
    then obtain "values" where v: "values \<in> set (remaining rows)"
      and r: "rowMap = fillRowMap (elems columns) values []"
      by auto
    from v h(4) have l: "length (elems columns) = length values" by simp
    have d: "distinct (map fst rowMap)"
      unfolding r by (rule fillRowMap_distinct) simp
    have k: "set (map fst rowMap) = set (elems columns)"
      using fillRowMap_keys [OF l, of "[]"] r by simp
    from d k have c: "length rowMap = card (set (elems columns))"
      using distinct_card [of "map fst rowMap"] by simp
    have "(card (set (elems columns)) = length (elems columns)) = distinct (elems columns)"
      using card_distinct [of "elems columns"] distinct_card [of "elems columns"] by blast
    with d k c show "distinct (map fst rowMap) \<and> set (map fst rowMap) = set (elems columns) \<and>
        length rowMap = card (set (elems columns)) \<and>
        (length rowMap = len columns) = distinct (elems columns)"
      by (simp add: len_def)
  qed
  show ?thesis
    by (rule exI [of _ query], rule exI [of _ rows], rule exI [of _ columns],
        rule exI [of _ ?results])
       (rule conjI [OF h(1) conjI [OF h(2) conjI [OF h(3) conjI [OF t conjI [OF len K]]]]])
qed

theorem ExecuteQuery_row_keys_witness:
  "\<exists>results.
     ExecuteQuery (\<lambda>s. s) exampleDB [] [''query'' \<mapsto> StringArgument ''SELECT 1 AS a, 2 AS a''] =
       (Inr (ToolResultText (ignoringError (Marshal_QueryResult
          \<lparr>Columns = Slice [''a'', ''a''], Rows = Slice results, Count = 1\<rparr>))),
        [(''SELECT 1 AS a, 2 AS a'', [])]) \<and>
     length results = 1 \<and>
     set (map fst (results ! 0)) = {''a''} \<and> length (results ! 0) = 1"
proof -
  let ?U = "\<lambda>s::string. s"
  let ?q = "''SELECT 1 AS a, 2 AS a''"
  let ?req = "[''query'' \<mapsto> StringArgument ?q]"
  let ?rows = "\<lparr>columnNames = Inr (Slice [''a'', ''a'']), remaining = [[Int64 1, Int64 2]],
                lasterr = None\<rparr>"
  let ?t = "[Doc (JObject
     [(''columns'', JArray [JString ''a'', JString ''a'']),
      (''rows'', JArray [JObject [(''a'', JInt 2)]]),
      (''count'', JInt 1)])]"
  have E: "ExecuteQuery ?U exampleDB [] ?req = (Inr (ToolResultText ?t), [(?q, [])])"
    by code_simp
  have a: "answer exampleDB [] ?q = Inr ?rows" by code_simp
  from ExecuteQuery_row_keys [OF E] obtain query rows columns results where R:
    "?req ''query'' = Some (StringArgument query)"
    "answer exampleDB [] query = Inr rows" "columnNames rows = Inr columns"
    "?t = ignoringError (Marshal_QueryResult
           \<lparr>Columns = columns, Rows = Slice results, Count = length results\<rparr>)"
    "length results = length (remaining rows)"
    "\<forall>rowMap\<in>set results.
        distinct (map fst rowMap) \<and> set (map fst rowMap) = set (elems columns) \<and>
        length rowMap = card (set (elems columns)) \<and>
        (length rowMap = len columns) = distinct (elems columns)"
    by blast
  from R(1) have q: "query = ?q" by simp
  with R(2) a have rows: "rows = ?rows" by simp
  with R(3) have columns: "columns = Slice [''a'', ''a'']" by simp
  from R(5) rows have len: "length results = 1" by simp
  then have "results ! 0 \<in> set results" by simp
  with R(6) columns have k: "set (map fst (results ! 0)) = {''a''} \<and> length (results ! 0) = 1"
    by auto
  from E R(4) columns len have "ExecuteQuery ?U exampleDB [] ?req =
       (Inr (ToolResultText (ignoringError (Marshal_QueryResult
          \<lparr>Columns = Slice [''a'', ''a''], Rows = Slice results, Count = 1\<rparr>))), [(?q, [])])"
    by simp
  with len k show ?thesis by blast
qed

text \<open>
  The claim as it stands fails for a query that declares a column name twice: the row
  map of \<open>SELECT 1 AS a, 2 AS a\<close> has one entry for two declared columns.
\<close>

theorem ExecuteQuery_row_keys_counterexample:
  "ExecuteQuery (\<lambda>s. s) exampleDB [] [''query'' \<mapsto> StringArgument ''SELECT 1 AS a, 2 AS a''] =
     (Inr (ToolResultText
        [Doc (JObject [(''columns'', JArray [JString ''a'', JString ''a'']),
                       (''rows'', JArray [JObject [(''a'', JInt 2)]]),
                       (''count'', JInt 1)])]),
      [(''SELECT 1 AS a, 2 AS a'', [])]) \<and>
   scanRows [''a'', ''a''] [[Int64 1, Int64 2]] (Slice []) = Inr (Slice [[(''a'', Int64 2)]]) \<and>
   length [(''a'', Int64 2)] \<noteq> length [''a'', ''a'']"
  by code_simp

subsection \<open>Marshalling errors\<close>

lemma ExecuteQuery_marshal_error:
  assumes "req ''query'' = Some (StringArgument query)" and "isSafeQuery U query = None"
    and "answer db tr query = Inr rows" and "columnNames rows = Inr columns"
    and "scanRows (elems columns) (remaining rows) (Slice []) = Inr results"
    and "Marshal_QueryResult \<lparr>Columns = columns, Rows = results, Count = len results\<rparr> = Inl err"
  shows "ExecuteQuery U db tr req = (Inr (ToolResultText []), tr @ [(query, [])])"
    and "ExecuteQuery_main U db tr req =
           (Inl (Wrapped ''failed to marshal response'' err), tr @ [(query, [])])"
  using assms
  by (simp_all add: ExecuteQuery_def ExecuteQuery_main_def RequireString_Some QueryContext_def
      ignoringError_def)


text \<open>
  C9. A response that fails to serialize: the query \<open>SELECT 'NaN'::float8 AS x\<close> passes
  \<open>isSafeQuery\<close>, and the driver delivers the one value as the \<open>float64\<close> NaN, which
  \<open>json.Marshal\<close> refuses. \<open>ExecuteQuery\<close> of \<open>src/main.go\<close> returns the error
  \<open>failed to marshal response\<close>. \<open>ExecuteQuery\<close> of the program with three tools drops
  the error of \<open>json.Marshal\<close> and returns a result with an empty text and no error.
\<close>

theorem ExecuteQuery_marshal_error_dropped:
  "isSafeQuery (\<lambda>s. s) nanQuery = None \<and>
   ExecuteQuery (\<lambda>s. s) exampleDB [] [''query'' \<mapsto> StringArgument nanQuery] =
     (Inr (ToolResultText []), [(nanQuery, [])]) \<and>
   ExecuteQuery_main (\<lambda>s. s) exampleDB [] [''query'' \<mapsto> StringArgument nanQuery] =
     (Inl (Wrapped ''failed to marshal response'' (ErrorString ''json: unsupported value: NaN'')),
      [(nanQuery, [])])"
  by code_simp

subsection \<open>ListTables and DescribeTable\<close>

lemma ListTables_no_row:
  assumes "answerTables db tr = Inr []"
  shows "ListTables db tr = (Inr (ToolResultText [Doc JNull]), tr @ [(listTablesSQL, [])])"
  using assms
  by (simp add: ListTables_def QueryContext_tables_def Marshal_slice_def ignoringError_def)

text \<open>
  C10. Let the database answer the statement of \<open>ListTables\<close> as PostgreSQL does on
  the catalog. When the catalog has no table of the public schema, the statement
  returns no row, and \<open>ListTables\<close> marshals the \<open>nil\<close> slice it never appended to: the
  text of the result is the JSON literal \<open>null\<close>, which is not the empty array.
\<close>

theorem ListTables_null:
  assumes "answerTables db tr = Inr (selectTables tables)"
    and "\<forall>t\<in>set tables. fst t \<noteq> ''public''"
  shows "ListTables db tr = (Inr (ToolResultText [Doc JNull]), tr @ [(listTablesSQL, [])]) \<and>
         [Doc JNull] \<noteq> [Doc (JArray [])]"
proof -
  from assms(2) have "selectTables tables = []"
    by (simp add: selectTables_def filter_empty_conv)
  with assms(1) show ?thesis
    by (simp add: ListTables_no_row)
qed

theorem ListTables_null_witness:
  "ListTables emptyDB [] = (Inr (ToolResultText [Doc JNull]), [(listTablesSQL, [])])"
proof -
  have 1: "answerTables emptyDB [] = Inr (selectTables [(''pg_catalog'', ''pg_class'')])"
    by (simp add: emptyDB_def)
  have 2: "\<forall>t\<in>set [(''pg_catalog'', ''pg_class'')]. fst t \<noteq> ''public''"
    by simp
  from ListTables_null [OF 1 2] show ?thesis by simp
qed

lemma scanColumns_Slice:
  "scanColumns (map (\<lambda>c. [Some (column_name c), Some (data_type c)]) cs) (Slice acc) =
     Inr (Slice (acc @ map columnMap cs))"
  by (induction cs arbitrary: acc) (simp_all add: columnMap_def)

lemma scanColumns_NilSlice:
  "scanColumns (map (\<lambda>c. [Some (column_name c), Some (data_type c)]) cs) NilSlice =
     Inr (if cs = [] then NilSlice else Slice (map columnMap cs))"
  by (cases cs) (simp_all add: scanColumns_Slice, simp add: columnMap_def)

lemma Marshal_columnMap: "Marshal_map Marshal_string (columnMap c) = Inr (columnObject c)"
  by (simp add: Marshal_map_def Marshal_string_def columnMap_def columnObject_def)

lemma Marshal_columnMaps:
  "Marshal_list (Marshal_map Marshal_string) (map columnMap cs) = Inr (map columnObject cs)"
  by (induction cs) (simp_all add: Marshal_columnMap)

lemma publicColumns_Nil:
  "(publicColumns catalog table = []) =
     (\<forall>c\<in>set catalog. table_schema c = ''public'' \<longrightarrow> table_name c \<noteq> table)"
proof -
  have "(publicColumns catalog table = []) = (set (publicColumns catalog table) = {})"
    by simp
  also have "\<dots> = (\<forall>c\<in>set catalog. table_schema c = ''public'' \<longrightarrow> table_name c \<noteq> table)"
    unfolding publicColumns_def by auto
  finally show ?thesis .
qed

text \<open>
  C8 (amended). Let the database answer the statement of \<open>DescribeTable\<close> as PostgreSQL
  does on the catalog. Then \<open>DescribeTable\<close> sends that statement with the table name
  as its bound argument and returns the columns of the public table of that name,
  ordered by ordinal position, each as an object with the members \<open>column\<close> and
  \<open>type\<close>, in an array; when the catalog has no column of a public table of that name,
  it returns the JSON literal \<open>null\<close> and no error.
\<close>

theorem DescribeTable_columns:
  assumes "req ''table'' = Some (StringArgument table)"
    and "answerColumns db tr table = Inr (selectColumns catalog table)"
  shows "DescribeTable db tr req =
           (Inr (ToolResultText
              [Doc (if publicColumns catalog table = [] then JNull
                    else JArray (map columnObject (publicColumns catalog table)))]),
            tr @ [(describeSQL 8, [table])]) \<and>
         sorted (map ordinal_position (publicColumns catalog table)) \<and>
         set (publicColumns catalog table) =
           {c \<in> set catalog. table_schema c = ''public'' \<and> table_name c = table} \<and>
         length (publicColumns catalog table) =
           length (filter (\<lambda>c. table_schema c = ''public'' \<and> table_name c = table) catalog) \<and>
         ((\<forall>c\<in>set catalog. table_schema c = ''public'' \<longrightarrow> table_name c \<noteq> table) \<longrightarrow>
            DescribeTable db tr req =
              (Inr (ToolResultText [Doc JNull]), tr @ [(describeSQL 8, [table])]))"
proof -
  let ?cs = "publicColumns catalog table"
  have 1: "DescribeTable db tr req =
           (Inr (ToolResultText [Doc (if ?cs = [] then JNull else JArray (map columnObject ?cs))]),
            tr @ [(describeSQL 8, [table])])"
    using assms
    by (simp add: DescribeTable_def RequireString_Some QueryContext_columns_def selectColumns_def
        scanColumns_NilSlice Marshal_slice_def Marshal_columnMaps ignoringError_def)
  have 2: "sorted (map ordinal_position ?cs)"
    by (simp add: publicColumns_def)
  have 3: "set ?cs = {c \<in> set catalog. table_schema c = ''public'' \<and> table_name c = table}"
    by (auto simp: publicColumns_def)
  have 4: "length ?cs =
      length (filter (\<lambda>c. table_schema c = ''public'' \<and> table_name c = table) catalog)"
    by (simp add: publicColumns_def)
  have 5: "(\<forall>c\<in>set catalog. table_schema c = ''public'' \<longrightarrow> table_name c \<noteq> table) \<longrightarrow>
            DescribeTable db tr req =
              (Inr (ToolResultText [Doc JNull]), tr @ [(describeSQL 8, [table])])"
    using 1 publicColumns_Nil [of catalog table] by simp
  show ?thesis
    by (rule conjI [OF 1 conjI [OF 2 conjI [OF 3 conjI [OF 4 5]]]])
qed

theorem DescribeTable_columns_witness:
  "DescribeTable exampleDB [] [''table'' \<mapsto> StringArgument ''users''] =
     (Inr (ToolResultText
        [Doc (JArray
           [JObject [(''column'', JString ''id''), (''type'', JString ''integer'')],
            JObject [(''column'', JString ''avatar''), (''type'', JString ''bytea'')]])]),
      [(describeSQL 8, [''users''])]) \<and>
   DescribeTable exampleDB [] [''table'' \<mapsto> StringArgument ''orders''] =
     (Inr (ToolResultText [Doc JNull]), [(describeSQL 8, [''orders''])])"
proof -
  have u: "publicColumns exampleCatalog ''users'' =
     [\<lparr>table_schema = ''public'', table_name = ''users'', column_name = ''id'',
        data_type = ''integer'', ordinal_position = 1\<rparr>,
      \<lparr>table_schema = ''public'', table_name = ''users'', column_name = ''avatar'',
        data_type = ''bytea'', ordinal_position = 2\<rparr>]"
    by code_simp
  have o: "\<forall>c\<in>set exampleCatalog. table_schema c = ''public'' \<longrightarrow> table_name c \<noteq> ''orders''"
    by code_simp
  have a: "answerColumns exampleDB [] t = Inr (selectColumns exampleCatalog t)" for t
    by (simp add: exampleDB_def)
  from DescribeTable_columns [where req = "[''table'' \<mapsto> StringArgument ''users'']"
      and table = "''users''" and db = exampleDB and tr = "[]" and catalog = exampleCatalog] a u
  have 1: "DescribeTable exampleDB [] [''table'' \<mapsto> StringArgument ''users''] =
     (Inr (ToolResultText
        [Doc (JArray
           [JObject [(''column'', JString ''id''), (''type'', JString ''integer'')],
            JObject [(''column'', JString ''avatar''), (''type'', JString ''bytea'')]])]),
      [(describeSQL 8, [''users''])])"
    by (simp add: columnObject_def)
  from DescribeTable_columns [where req = "[''table'' \<mapsto> StringArgument ''orders'']"
      and table = "''orders''" and db = exampleDB and tr = "[]" and catalog = exampleCatalog] a o
  have 2: "DescribeTable exampleDB [] [''table'' \<mapsto> StringArgument ''orders''] =
     (Inr (ToolResultText [Doc JNull]), [(describeSQL 8, [''orders''])])"
    by simp
  show ?thesis by (rule conjI [OF 1 2])
qed

text \<open>
  The claim as it stands fails for a table name that names no public table: the
  result is the JSON literal \<open>null\<close>, not an empty array.
\<close>

theorem DescribeTable_columns_counterexample:
  "publicColumns exampleCatalog ''orders'' = [] \<and>
   DescribeTable exampleDB [] [''table'' \<mapsto> StringArgument ''orders''] =
     (Inr (ToolResultText [Doc JNull]), [(describeSQL 8, [''orders''])]) \<and>
   fst (DescribeTable exampleDB [] [''table'' \<mapsto> StringArgument ''orders'']) \<noteq>
     Inr (ToolResultText [Doc (JArray [])])"
  by code_simp

end
